theory Spec2Isabelle
  imports Complex_Main
begin

section \<open>BaseDecider: frame reception and channel sensing\<close>

text \<open>
  A shallow embedding of \<^verbatim>\<open>src/base/phyLayer/BaseDecider.cc\<close>. Every member
  function of \<^verbatim>\<open>BaseDecider\<close> that the file defines becomes a HOL function of the
  same name, taking the decider object and returning it updated. The physical layer the
  decider talks to (\<^verbatim>\<open>phy\<close>) is an input; the calls the decider makes on it are
  appended to a log, in the order the source makes them.
\<close>

subsection \<open>Values\<close>

text \<open>
  \<^verbatim>\<open>double\<close> is modelled by \<open>real\<close>. A pointer is an address, \<open>0\<close> the null
  pointer.
\<close>

type_synonym ptr = nat

text \<open>
  Modelled from the spec: \<^verbatim>\<open>simtime_t\<close> is the simulation kernel's class
  \<^verbatim>\<open>SimTime\<close>, which is not among the sources. It is a fixed-point time held in a
  signed 64-bit count of ticks, with \<^verbatim>\<open>SimTime::getMaxTime()\<close> the largest. A time
  is modelled by its count of ticks, an \<open>int\<close>; the counts a \<^verbatim>\<open>SimTime\<close> can
  hold are the representable ones. The kernel's \<^verbatim>\<open>operator+\<close> is modelled as the
  64-bit sum of the counts: exact when the sum is representable, wrapping around when it
  is not. Every property below whose statement depends on the value of such a sum assumes
  that the sum is representable, or runs under a scheduler that refuses a wrapped time.
\<close>

type_synonym simtime_t = int

definition SimTime_representable :: "int \<Rightarrow> bool" where
  "SimTime_representable x = (- (2 ^ 63) \<le> x \<and> x < 2 ^ 63)"

definition SimTime_add :: "simtime_t \<Rightarrow> simtime_t \<Rightarrow> simtime_t" where
  "SimTime_add a b = (a + b + 2 ^ 63) mod 2 ^ 64 - 2 ^ 63"

definition DBL_MAX :: real where
  "DBL_MAX = 2 ^ 1024 - 2 ^ 971"

text \<open>
  Modelled from the spec: the constant \<^verbatim>\<open>notAgain\<close> is a member initialised in
  \<^verbatim>\<open>BaseDecider.h\<close>, which is not among the sources; it is the sentinel
  "no further events wanted", a time no event can have.
\<close>

definition notAgain :: simtime_t where
  "notAgain = - 1"

text \<open>
  Modelled from the spec: \<^verbatim>\<open>enum SignalState\<close> is declared in
  \<^verbatim>\<open>BaseDecider.h\<close>. \<^verbatim>\<open>currentSignal.second\<close> and the result of
  \<^verbatim>\<open>getSignalState\<close> are plain \<^verbatim>\<open>int\<close>s in the source, so the three
  enumerators are three distinct integers and every other integer is a possible value too.
\<close>

definition NEW :: int where
  "NEW = 0"

definition EXPECT_HEADER :: int where
  "EXPECT_HEADER = 1"

definition EXPECT_END :: int where
  "EXPECT_END = 2"

subsection \<open>Mappings\<close>

text \<open>
  Modelled from the spec: the classes \<^verbatim>\<open>Mapping\<close>, \<^verbatim>\<open>ConstMapping\<close> and
  \<^verbatim>\<open>MappingUtils\<close> are not among the sources. The spec calls a mapping an Interval
  Function: a real-valued function of time that can be read at a point, combined pointwise,
  and asked for its maximum over an interval; the maximum of "no contributing signal" is an
  empty-aggregate sentinel, distinguished from zero power. The source adds three facts:
  \<^verbatim>\<open>createMapping\<close> yields "an empty mapping" (line 297), \<^verbatim>\<open>findMax\<close> gives
  "the maximum value between (and including) the interval-borders" (line 166) and
  "returns -DBL_MAX on empty mappings" (line 178).

  A mapping is therefore a partial function of time: \<open>Some v\<close> where it holds a value,
  \<open>None\<close> where it holds none. The empty mapping holds no value anywhere.
\<close>

type_synonym Mapping = "simtime_t \<Rightarrow> real option"

definition MappingUtils_createMapping :: Mapping where
  "MappingUtils_createMapping = (\<lambda>t. None)"

text \<open>
  Modelled from the spec: \<^verbatim>\<open>getValue\<close> outside the values a mapping holds gives
  the out-of-range value, \<open>0.0\<close> in every call of this file.
\<close>

definition getValue :: "Mapping \<Rightarrow> simtime_t \<Rightarrow> real" where
  "getValue m t = (case m t of None \<Rightarrow> 0 | Some v \<Rightarrow> v)"

text \<open>
  Modelled from the spec: pointwise sum; the result holds a value wherever one of the two
  operands does, the other operand counting as \<open>outOfRangeVal\<close> there.
\<close>

definition MappingUtils_add :: "Mapping \<Rightarrow> Mapping \<Rightarrow> real \<Rightarrow> Mapping" where
  "MappingUtils_add f1 f2 outOfRangeVal =
     (\<lambda>t. case f1 t of
        None \<Rightarrow> (case f2 t of None \<Rightarrow> None | Some b \<Rightarrow> Some (outOfRangeVal + b))
      | Some a \<Rightarrow> (case f2 t of None \<Rightarrow> Some (a + outOfRangeVal) | Some b \<Rightarrow> Some (a + b)))"

text \<open>
  Modelled from the spec: the maximum over the closed interval from \<open>lo\<close> to \<open>hi\<close>,
  \<open>- DBL_MAX\<close> when the mapping holds no value there.
\<close>

definition MappingUtils_findMax :: "Mapping \<Rightarrow> simtime_t \<Rightarrow> simtime_t \<Rightarrow> real" where
  "MappingUtils_findMax m lo hi =
     (case List.map_filter m [lo..hi] of
        [] \<Rightarrow> - DBL_MAX
      | v # vs \<Rightarrow> fold max vs v)"

subsection \<open>Objects the decider reads\<close>

record Signal =
  getSignalStart :: simtime_t
  getSignalLength :: simtime_t
  getReceivingPower :: Mapping

text \<open>
  \<^verbatim>\<open>canAnswerCSR\<close> switches on \<^verbatim>\<open>getSenseMode()\<close> with the two case labels
  \<^verbatim>\<open>UNTIL_IDLE\<close> and \<^verbatim>\<open>UNTIL_BUSY\<close> and no default; \<open>OTHER_MODE\<close> stands for
  every value that matches neither label.
\<close>

datatype SenseMode = UNTIL_IDLE | UNTIL_BUSY | OTHER_MODE

record ChannelSenseRequest =
  getSenseMode :: SenseMode
  getSenseTimeout :: simtime_t

text \<open>
  What the decider can ask of its surroundings during one call: the four queries it makes
  on \<^verbatim>\<open>phy\<close>, and the objects behind the frame and request pointers
  (\<^verbatim>\<open>frame->getSignal()\<close>, \<^verbatim>\<open>request->getSenseMode()\<close>).
\<close>

record DeciderToPhyInterface =
  getSimTime :: simtime_t
  getChannelInfo :: "simtime_t \<Rightarrow> simtime_t \<Rightarrow> ptr list"
  getThermalNoise :: "simtime_t \<Rightarrow> simtime_t \<Rightarrow> Mapping option"
  getSignal :: "ptr \<Rightarrow> Signal"
  getRequest :: "ptr \<Rightarrow> ChannelSenseRequest"

text \<open>
  The calls with an effect outside the decider, as logged: \<^verbatim>\<open>phy->sendUp(frame, new
  DeciderResult(b))\<close>, \<^verbatim>\<open>request->setResult(ChannelState(idle, rssi))\<close>,
  \<^verbatim>\<open>phy->sendControlMsg(request)\<close> and \<^verbatim>\<open>phy->cancelScheduledMessage(request)\<close>.
\<close>

datatype Call =
    sendUp ptr bool
  | setResult ptr bool real
  | sendControlMsg ptr
  | cancelScheduledMessage ptr

text \<open>
  A failed \<^verbatim>\<open>assert\<close>, \<^verbatim>\<open>opp_error\<close> (which throws and ends the run) and the
  dereference of a null pointer end the call; the decider is returned as it was at that
  point.
\<close>

datatype Abort = AssertionFailed | opp_error string | NullDereference

subsection \<open>The decider object\<close>

record BaseDecider =
  sensitivity :: real
  currentSignal :: "ptr \<times> int"
  isChannelIdle :: bool
  currentChannelSenseRequest :: "ptr \<times> simtime_t"
  calls :: "Call list"

text \<open>
  Modelled from the spec: \<^verbatim>\<open>processSignalHeader\<close> and \<^verbatim>\<open>processUnknownSignal\<close>
  are virtual members whose bodies are in \<^verbatim>\<open>BaseDecider.h\<close>; they are taken as
  parameters of \<open>processSignal\<close>.
\<close>

record Virtuals =
  processSignalHeader :: "ptr \<Rightarrow> BaseDecider \<Rightarrow> (Abort + simtime_t) \<times> BaseDecider"
  processUnknownSignal :: "ptr \<Rightarrow> BaseDecider \<Rightarrow> (Abort + simtime_t) \<times> BaseDecider"

subsection \<open>The interference accumulator\<close>

text \<open>
  The loop of \<^verbatim>\<open>calculateRSSIMapping\<close> over the frames \<^verbatim>\<open>getChannelInfo\<close>
  returned. The values it reads into local variables "for debugging" are never used and
  are left out.
\<close>

fun addAirFrames :: "DeciderToPhyInterface \<Rightarrow> ptr \<Rightarrow> ptr list \<Rightarrow> Mapping \<Rightarrow> Abort + Mapping" where
  "addAirFrames phy exclude [] resultMap = Inr resultMap"
| "addAirFrames phy exclude (it # airFrames) resultMap =
     (if it = 0 then Inl AssertionFailed
      else if it = exclude then addAirFrames phy exclude airFrames resultMap
      else addAirFrames phy exclude airFrames
             (MappingUtils_add (getReceivingPower (getSignal phy it)) resultMap 0))"

definition calculateRSSIMapping ::
  "DeciderToPhyInterface \<Rightarrow> simtime_t \<Rightarrow> simtime_t \<Rightarrow> ptr \<Rightarrow> Abort + Mapping" where
  "calculateRSSIMapping phy start endT exclude =
     (let airFrames = getChannelInfo phy start endT;
          resultMap = MappingUtils_createMapping;
          resultMap = (case getThermalNoise phy start endT of
                         None \<Rightarrow> resultMap
                       | Some thermalNoise \<Rightarrow> MappingUtils_add resultMap thermalNoise 0)
      in addAirFrames phy exclude airFrames resultMap)"

definition calcChannelSenseRSSI ::
  "DeciderToPhyInterface \<Rightarrow> simtime_t \<Rightarrow> simtime_t \<Rightarrow> Abort + real" where
  "calcChannelSenseRSSI phy start endT =
     (case calculateRSSIMapping phy start endT 0 of
        Inl e \<Rightarrow> Inl e
      | Inr rssiMap \<Rightarrow> Inr (MappingUtils_findMax rssiMap start endT))"

definition getChannelState :: "DeciderToPhyInterface \<Rightarrow> BaseDecider \<Rightarrow> Abort + bool \<times> real" where
  "getChannelState phy d =
     (let now = getSimTime phy in
      case calcChannelSenseRSSI phy now now of
        Inl e \<Rightarrow> Inl e
      | Inr rssiValue \<Rightarrow> Inr (isChannelIdle d, rssiValue))"

subsection \<open>Channel sense requests\<close>

definition canAnswerCSR :: "DeciderToPhyInterface \<Rightarrow> BaseDecider \<Rightarrow> ptr \<times> simtime_t \<Rightarrow> bool" where
  "canAnswerCSR phy d requestInfo =
     (if fst requestInfo = 0 then False
      else
        let modeFulfilled =
              (case getSenseMode (getRequest phy (fst requestInfo)) of
                 UNTIL_IDLE \<Rightarrow> isChannelIdle d
               | UNTIL_BUSY \<Rightarrow> \<not> isChannelIdle d
               | OTHER_MODE \<Rightarrow> False)
        in modeFulfilled
           \<or> getSimTime phy
               = SimTime_add (snd requestInfo) (getSenseTimeout (getRequest phy (fst requestInfo))))"

text \<open>
  \<^verbatim>\<open>answerCSR\<close> takes a reference; every call in the file passes
  \<^verbatim>\<open>currentChannelSenseRequest\<close>, so the model works on that member.
\<close>

definition answerCSR :: "DeciderToPhyInterface \<Rightarrow> BaseDecider \<Rightarrow> (Abort + unit) \<times> BaseDecider" where
  "answerCSR phy d =
     (let requestInfo = currentChannelSenseRequest d in
      case calcChannelSenseRSSI phy (snd requestInfo) (getSimTime phy) of
        Inl e \<Rightarrow> (Inl e, d)
      | Inr rssi \<Rightarrow>
          let rssiValue = (if rssi < 0 then 0 else rssi) in
          if fst requestInfo = 0 then (Inl NullDereference, d)
          else
            (Inr (),
             d\<lparr>calls := calls d @ [setResult (fst requestInfo) (isChannelIdle d) rssiValue,
                                    sendControlMsg (fst requestInfo)],
               currentChannelSenseRequest := (0, snd requestInfo)\<rparr>))"

definition setChannelIdleStatus ::
  "DeciderToPhyInterface \<Rightarrow> bool \<Rightarrow> BaseDecider \<Rightarrow> (Abort + unit) \<times> BaseDecider" where
  "setChannelIdleStatus phy isIdle d =
     (let d1 = d\<lparr>isChannelIdle := isIdle\<rparr> in
      if canAnswerCSR phy d1 (currentChannelSenseRequest d1)
      then answerCSR phy
             (d1\<lparr>calls := calls d1 @ [cancelScheduledMessage (fst (currentChannelSenseRequest d1))]\<rparr>)
      else (Inr (), d1))"

definition handleSenseRequestTimeout ::
  "DeciderToPhyInterface \<Rightarrow> BaseDecider \<Rightarrow> (Abort + unit) \<times> BaseDecider" where
  "handleSenseRequestTimeout phy d = answerCSR phy d"

definition handleNewSenseRequest ::
  "DeciderToPhyInterface \<Rightarrow> ptr \<Rightarrow> BaseDecider \<Rightarrow> (Abort + simtime_t) \<times> BaseDecider" where
  "handleNewSenseRequest phy request d =
     (let now = getSimTime phy;
          d1 = d\<lparr>currentChannelSenseRequest := (request, now)\<rparr>
      in if canAnswerCSR phy d1 (currentChannelSenseRequest d1)
         then (case answerCSR phy d1 of
                 (Inl e, d2) \<Rightarrow> (Inl e, d2)
               | (Inr u, d2) \<Rightarrow> (Inr notAgain, d2))
         else (Inr (SimTime_add now (getSenseTimeout (getRequest phy request))), d1))"

definition handleChannelSenseRequest ::
  "DeciderToPhyInterface \<Rightarrow> ptr \<Rightarrow> BaseDecider \<Rightarrow> (Abort + simtime_t) \<times> BaseDecider" where
  "handleChannelSenseRequest phy request d =
     (if request = 0 then (Inl AssertionFailed, d)
      else if fst (currentChannelSenseRequest d) = 0 then handleNewSenseRequest phy request d
      else if fst (currentChannelSenseRequest d) \<noteq> request
      then (Inl (opp_error ''Got a new ChannelSenseRequest while already handling another one!''), d)
      else (case handleSenseRequestTimeout phy d of
              (Inl e, d1) \<Rightarrow> (Inl e, d1)
            | (Inr u, d1) \<Rightarrow> (Inr notAgain, d1)))"

subsection \<open>The reception state machine\<close>

definition getSignalState :: "ptr \<Rightarrow> BaseDecider \<Rightarrow> int" where
  "getSignalState frame d =
     (if frame = fst (currentSignal d) then snd (currentSignal d) else NEW)"

definition processNewSignal ::
  "DeciderToPhyInterface \<Rightarrow> ptr \<Rightarrow> BaseDecider \<Rightarrow> (Abort + simtime_t) \<times> BaseDecider" where
  "processNewSignal phy frame d =
     (if fst (currentSignal d) \<noteq> 0 then (Inr notAgain, d)
      else
        let signal = getSignal phy frame;
            recvPower = getValue (getReceivingPower signal) (getSignalStart signal)
        in if recvPower < sensitivity d then (Inr notAgain, d)
           else
             (case setChannelIdleStatus phy False (d\<lparr>currentSignal := (frame, EXPECT_END)\<rparr>) of
                (Inl e, d1) \<Rightarrow> (Inl e, d1)
              | (Inr u, d1) \<Rightarrow>
                  (Inr (SimTime_add (getSignalStart signal) (getSignalLength signal)), d1)))"

definition processSignalEnd ::
  "DeciderToPhyInterface \<Rightarrow> ptr \<Rightarrow> BaseDecider \<Rightarrow> (Abort + simtime_t) \<times> BaseDecider" where
  "processSignalEnd phy frame d =
     (let d1 = d\<lparr>calls := calls d @ [sendUp frame True]\<rparr>;
          d2 = d1\<lparr>currentSignal := (0, snd (currentSignal d1))\<rparr>
      in case setChannelIdleStatus phy True d2 of
           (Inl e, d3) \<Rightarrow> (Inl e, d3)
         | (Inr u, d3) \<Rightarrow> (Inr notAgain, d3))"

definition processSignal ::
  "Virtuals \<Rightarrow> DeciderToPhyInterface \<Rightarrow> ptr \<Rightarrow> BaseDecider \<Rightarrow> (Abort + simtime_t) \<times> BaseDecider" where
  "processSignal v phy frame d =
     (if frame = 0 then (Inl AssertionFailed, d)
      else
        let s = getSignalState frame d in
        if s = NEW then processNewSignal phy frame d
        else if s = EXPECT_HEADER then processSignalHeader v frame d
        else if s = EXPECT_END then processSignalEnd phy frame d
        else processUnknownSignal v frame d)"

section \<open>The host of the decider\<close>

text \<open>
  Modelled from the spec: the layer that owns the decider and the event scheduler are not
  among the sources. The spec (sections 5 and 6) describes them: the handlers are invoked
  one at a time at discrete simulated times; a handler that returns a wake-up time is
  invoked again at that time with the same request; \<open>notAgain\<close> means it is not invoked
  again; \<^verbatim>\<open>cancelScheduledMessage\<close> cancels a wake-up asked for before; a new sense
  request never arrives while one is pending. The clock never passes a scheduled
  wake-up without delivering it, and no wake-up can be scheduled in the past.

  Frames are not restricted: the host may call \<open>processSignal\<close> for any frame at any
  time, which covers a frame's arrival and its own wake-up. The sense requests are
  objects that do not change; what the channel holds may differ from event to event.
\<close>

record Host =
  decider :: BaseDecider
  clock :: simtime_t
  scheduled :: "(ptr \<times> simtime_t) option"

datatype Event =
    frameEvent DeciderToPhyInterface ptr
  | newRequest DeciderToPhyInterface ptr
  | timeoutFires DeciderToPhyInterface
  | advance simtime_t

text \<open>The physical layer the decider sees during an event: the event's channel, the
  host's clock, the request objects.\<close>

definition phyAt ::
  "(ptr \<Rightarrow> ChannelSenseRequest) \<Rightarrow> Host \<Rightarrow> DeciderToPhyInterface \<Rightarrow> DeciderToPhyInterface" where
  "phyAt requests h phy = phy\<lparr>getSimTime := clock h, getRequest := requests\<rparr>"

text \<open>The calls of \<^verbatim>\<open>cancelScheduledMessage\<close> the decider made take the wake-up they
  name off the schedule.\<close>

fun cancelScheduled :: "Call list \<Rightarrow> (ptr \<times> simtime_t) option \<Rightarrow> (ptr \<times> simtime_t) option" where
  "cancelScheduled [] sch = sch"
| "cancelScheduled (cancelScheduledMessage request # cs) sch =
     cancelScheduled cs
       (case sch of None \<Rightarrow> None | Some (r, w) \<Rightarrow> if r = request then None else Some (r, w))"
| "cancelScheduled (c # cs) sch = cancelScheduled cs sch"

text \<open>What the host does with the time a sense-request handler returned.\<close>

definition scheduleAt ::
  "ptr \<Rightarrow> simtime_t \<Rightarrow> simtime_t \<Rightarrow> (ptr \<times> simtime_t) option \<Rightarrow> (ptr \<times> simtime_t) option option" where
  "scheduleAt request t now sch =
     (if t = notAgain then Some sch
      else if t < now then None
      else Some (Some (request, t)))"

definition newCalls :: "BaseDecider \<Rightarrow> BaseDecider \<Rightarrow> Call list" where
  "newCalls d d' = drop (length (calls d)) (calls d')"

text \<open>
  One event. \<open>None\<close> means the run ends here: the event is not possible in this state, the
  decider aborted, or the scheduler refused the time.
\<close>

fun step :: "Virtuals \<Rightarrow> (ptr \<Rightarrow> ChannelSenseRequest) \<Rightarrow> Event \<Rightarrow> Host \<Rightarrow> Host option" where
  "step v requests (advance t) h =
     (if clock h < t \<and> SimTime_representable t
         \<and> (case scheduled h of None \<Rightarrow> True | Some (r, w) \<Rightarrow> t \<le> w)
      then Some (h\<lparr>clock := t\<rparr>) else None)"
| "step v requests (frameEvent phy frame) h =
     (case processSignal v (phyAt requests h phy) frame (decider h) of
        (Inl e, d') \<Rightarrow> None
      | (Inr t, d') \<Rightarrow>
          Some (h\<lparr>decider := d',
                  scheduled := cancelScheduled (newCalls (decider h) d') (scheduled h)\<rparr>))"
| "step v requests (newRequest phy request) h =
     (if fst (currentChannelSenseRequest (decider h)) \<noteq> 0 then None
      else
        case handleChannelSenseRequest (phyAt requests h phy) request (decider h) of
          (Inl e, d') \<Rightarrow> None
        | (Inr t, d') \<Rightarrow>
            (case scheduleAt request t (clock h)
                    (cancelScheduled (newCalls (decider h) d') (scheduled h)) of
               None \<Rightarrow> None
             | Some sch \<Rightarrow> Some (h\<lparr>decider := d', scheduled := sch\<rparr>)))"
| "step v requests (timeoutFires phy) h =
     (case scheduled h of
        None \<Rightarrow> None
      | Some (r, w) \<Rightarrow>
          if clock h \<noteq> w then None
          else
            case handleChannelSenseRequest (phyAt requests h phy) r (decider h) of
              (Inl e, d') \<Rightarrow> None
            | (Inr t, d') \<Rightarrow>
                (case scheduleAt r t (clock h) (cancelScheduled (newCalls (decider h) d') None) of
                   None \<Rightarrow> None
                 | Some sch \<Rightarrow> Some (h\<lparr>decider := d', scheduled := sch\<rparr>)))"

fun run :: "Virtuals \<Rightarrow> (ptr \<Rightarrow> ChannelSenseRequest) \<Rightarrow> Event list \<Rightarrow> Host \<Rightarrow> Host option" where
  "run v requests [] h = Some h"
| "run v requests (e # es) h =
     (case step v requests e h of None \<Rightarrow> None | Some h' \<Rightarrow> run v requests es h')"

fun newRequests :: "Event list \<Rightarrow> ptr list" where
  "newRequests [] = []"
| "newRequests (newRequest phy request # es) = request # newRequests es"
| "newRequests (e # es) = newRequests es"

definition pendingRequests :: "BaseDecider \<Rightarrow> ptr list" where
  "pendingRequests d =
     (if fst (currentChannelSenseRequest d) = 0 then [] else [fst (currentChannelSenseRequest d)])"

text \<open>
  Modelled from the spec: the constructor is in \<^verbatim>\<open>BaseDecider.h\<close>. A decider starts
  with no reception, no pending request and nothing scheduled; simulated time starts at
  zero or later.
\<close>

definition initialHost :: "Host \<Rightarrow> bool" where
  "initialHost h =
     (fst (currentSignal (decider h)) = 0 \<and> fst (currentChannelSenseRequest (decider h)) = 0
      \<and> calls (decider h) = [] \<and> 0 \<le> clock h \<and> scheduled h = None)"

section \<open>Vocabulary of the properties\<close>

text \<open>
  The source asserts that the vector \<^verbatim>\<open>getChannelInfo\<close> fills "should not contain
  pointers to 0" (line 315). A physical layer that keeps this promise is called valid.
\<close>

definition channelInfoValid :: "DeciderToPhyInterface \<Rightarrow> bool" where
  "channelInfoValid phy = (\<forall>start endT. 0 \<notin> set (getChannelInfo phy start endT))"

text \<open>
  The maximum of a mapping over a set of instants, where a negative maximum and the
  maximum of no value at all both count as zero.
\<close>

definition intensityOver :: "Mapping \<Rightarrow> simtime_t set \<Rightarrow> real" where
  "intensityOver m T =
     (if \<forall>t\<in>T. m t = None then 0 else max 0 (Max {v. \<exists>t\<in>T. m t = Some v}))"

text \<open>The frames handed to \<^verbatim>\<open>sendUp\<close> and the requests handed to
  \<^verbatim>\<open>sendControlMsg\<close>, in the order of the log.\<close>

fun sendUps :: "Call list \<Rightarrow> (ptr \<times> bool) list" where
  "sendUps [] = []"
| "sendUps (sendUp frame r # cs) = (frame, r) # sendUps cs"
| "sendUps (c # cs) = sendUps cs"

fun answers :: "Call list \<Rightarrow> ptr list" where
  "answers [] = []"
| "answers (sendControlMsg request # cs) = request # answers cs"
| "answers (c # cs) = answers cs"

text \<open>
  The words of claim C4, for comparison with the code: the maximum of the accumulated
  power over the half-open interval from the request's arrival up to, but not including,
  now, a negative maximum counting as zero.
\<close>

definition claimedIntensity :: "DeciderToPhyInterface \<Rightarrow> simtime_t \<Rightarrow> real option" where
  "claimedIntensity phy arrival =
     (case calculateRSSIMapping phy arrival (getSimTime phy) 0 of
        Inl e \<Rightarrow> None
      | Inr rssiMap \<Rightarrow> Some (intensityOver rssiMap {arrival..<getSimTime phy}))"

text \<open>
  The invariant of claim C10: a recorded reception is always in state \<open>EXPECT_END\<close>.
\<close>

definition receptionInvariant :: "BaseDecider \<Rightarrow> bool" where
  "receptionInvariant d = (fst (currentSignal d) \<noteq> 0 \<longrightarrow> snd (currentSignal d) = EXPECT_END)"

text \<open>
  The value of the local variable \<^verbatim>\<open>modeFulfilled\<close> of \<^verbatim>\<open>canAnswerCSR\<close> and the
  time its timeout disjunct compares with, for the pending request.
\<close>

definition modeFulfilled :: "(ptr \<Rightarrow> ChannelSenseRequest) \<Rightarrow> BaseDecider \<Rightarrow> bool" where
  "modeFulfilled requests d =
     (case getSenseMode (requests (fst (currentChannelSenseRequest d))) of
        UNTIL_IDLE \<Rightarrow> isChannelIdle d
      | UNTIL_BUSY \<Rightarrow> \<not> isChannelIdle d
      | OTHER_MODE \<Rightarrow> False)"

definition wakeTime :: "(ptr \<Rightarrow> ChannelSenseRequest) \<Rightarrow> BaseDecider \<Rightarrow> simtime_t" where
  "wakeTime requests d =
     SimTime_add (snd (currentChannelSenseRequest d))
       (getSenseTimeout (requests (fst (currentChannelSenseRequest d))))"

text \<open>
  What every state of a run satisfies: the recorded reception is in state
  \<open>EXPECT_END\<close>; with no request pending nothing is scheduled; a pending request's mode
  is not fulfilled, and its wake-up is scheduled at arrival plus timeout and not yet
  passed (or that sum is \<open>notAgain\<close> and nothing is scheduled).
\<close>

definition hostInvariant :: "(ptr \<Rightarrow> ChannelSenseRequest) \<Rightarrow> Host \<Rightarrow> bool" where
  "hostInvariant requests h =
     (receptionInvariant (decider h) \<and> 0 \<le> clock h
      \<and> (if fst (currentChannelSenseRequest (decider h)) = 0 then scheduled h = None
          else \<not> modeFulfilled requests (decider h)
               \<and> (scheduled h = Some (fst (currentChannelSenseRequest (decider h)),
                                        wakeTime requests (decider h))
                    \<and> clock h \<le> wakeTime requests (decider h)
                  \<or> scheduled h = None \<and> wakeTime requests (decider h) = notAgain)))"

subsection \<open>A scenario\<close>

text \<open>
  One frame, at address 7, on the air from instant 2 to instant 12 with constant power 3;
  no thermal noise; every sense request waits for a busy channel, for at most 5 ticks. The
  decider starts idle, with no reception and no request, and with a sensitivity to choose.
\<close>

definition examplePower :: Mapping where
  "examplePower = (\<lambda>t. if 2 \<le> t \<and> t \<le> 12 then Some 3 else None)"

definition examplePhy :: "simtime_t \<Rightarrow> DeciderToPhyInterface" where
  "examplePhy now =
     \<lparr>getSimTime = now,
      getChannelInfo = (\<lambda>start endT. if start \<le> 12 \<and> 2 \<le> endT then [7] else []),
      getThermalNoise = (\<lambda>start endT. None),
      getSignal = (\<lambda>frame. \<lparr>getSignalStart = 2, getSignalLength = 10,
                               getReceivingPower = examplePower\<rparr>),
      getRequest = (\<lambda>request. \<lparr>getSenseMode = UNTIL_BUSY, getSenseTimeout = 5\<rparr>)\<rparr>"

definition exampleDecider :: "real \<Rightarrow> BaseDecider" where
  "exampleDecider s =
     \<lparr>sensitivity = s, currentSignal = (0, NEW), isChannelIdle = True,
      currentChannelSenseRequest = (0, 0), calls = []\<rparr>"

definition exampleVirtuals :: Virtuals where
  "exampleVirtuals =
     \<lparr>processSignalHeader = (\<lambda>frame d. (Inr notAgain, d)),
      processUnknownSignal = (\<lambda>frame d. (Inr notAgain, d))\<rparr>"

definition exampleHost :: "real \<Rightarrow> Host" where
  "exampleHost s = \<lparr>decider = exampleDecider s, clock = 0, scheduled = None\<rparr>"

section \<open>Properties\<close>

subsection \<open>Auxiliary facts\<close>

lemma SignalState_distinct:
  "NEW \<noteq> EXPECT_HEADER" "NEW \<noteq> EXPECT_END" "EXPECT_HEADER \<noteq> EXPECT_END"
  "EXPECT_HEADER \<noteq> NEW" "EXPECT_END \<noteq> NEW" "EXPECT_END \<noteq> EXPECT_HEADER"
  by (simp_all add: NEW_def EXPECT_HEADER_def EXPECT_END_def)

lemma SimTime_add_exact: "SimTime_representable (a + b) \<Longrightarrow> SimTime_add a b = a + b"
  by (simp add: SimTime_representable_def SimTime_add_def)

lemma DBL_MAX_positive: "0 < DBL_MAX"
proof -
  have "(2::real) ^ 971 < 2 ^ 1024"
    by (rule power_strict_increasing) simp_all
  then show ?thesis by (simp add: DBL_MAX_def)
qed

lemma sendUps_append: "sendUps (xs @ ys) = sendUps xs @ sendUps ys"
  by (induction xs rule: sendUps.induct) simp_all

lemma answers_append: "answers (xs @ ys) = answers xs @ answers ys"
  by (induction xs rule: answers.induct) simp_all

lemma addAirFrames_valid:
  "0 \<notin> set airFrames \<Longrightarrow> \<exists>m. addAirFrames phy exclude airFrames resultMap = Inr m"
  by (induction airFrames arbitrary: resultMap) auto

lemma calculateRSSIMapping_valid:
  "channelInfoValid phy \<Longrightarrow> \<exists>m. calculateRSSIMapping phy start endT exclude = Inr m"
  unfolding calculateRSSIMapping_def channelInfoValid_def Let_def
  by (simp add: addAirFrames_valid)

lemma map_filter_set: "set (List.map_filter m ts) = {v. \<exists>t\<in>set ts. m t = Some v}"
  by (induction ts) (auto split: option.splits)

lemma map_filter_Nil: "List.map_filter m ts = [] \<longleftrightarrow> (\<forall>t\<in>set ts. m t = None)"
  by (induction ts) (auto split: option.splits)

lemma findMax_closed_interval:
  "MappingUtils_findMax m lo hi =
     (if \<forall>t\<in>{lo..hi}. m t = None then - DBL_MAX
      else Max {v. \<exists>t\<in>{lo..hi}. m t = Some v})"
proof (cases "List.map_filter m [lo..hi]")
  case Nil
  then have "\<forall>t\<in>{lo..hi}. m t = None"
    using map_filter_Nil [of m "[lo..hi]"] by simp
  with Nil show ?thesis by (simp add: MappingUtils_findMax_def)
next
  case (Cons v vs)
  then have ne: "\<not> (\<forall>t\<in>{lo..hi}. m t = None)"
    using map_filter_Nil [of m "[lo..hi]"] by simp
  have "fold max vs v = Max (set (v # vs))"
    by (simp only: Max.set_eq_fold)
  also have "set (v # vs) = {v. \<exists>t\<in>{lo..hi}. m t = Some v}"
    using map_filter_set [of m "[lo..hi]"] Cons by simp
  finally have "fold max vs v = Max {v. \<exists>t\<in>{lo..hi}. m t = Some v}" .
  with Cons ne show ?thesis by (auto simp add: MappingUtils_findMax_def)
qed

lemma clamp_findMax:
  "(if MappingUtils_findMax m lo hi < 0 then 0 else MappingUtils_findMax m lo hi)
     = intensityOver m {lo..hi}"
  using DBL_MAX_positive by (auto simp: findMax_closed_interval intensityOver_def max_def)


lemma calcChannelSenseRSSI_Inr:
  "calculateRSSIMapping phy start endT 0 = Inr rssiMap \<Longrightarrow>
   calcChannelSenseRSSI phy start endT = Inr (MappingUtils_findMax rssiMap start endT)"
  by (simp add: calcChannelSenseRSSI_def)

lemma answerCSR_result:
  assumes "calculateRSSIMapping phy (snd (currentChannelSenseRequest d)) (getSimTime phy) 0 = Inr rssiMap"
    and "fst (currentChannelSenseRequest d) \<noteq> 0"
  shows "answerCSR phy d =
           (Inr (),
            d\<lparr>calls := calls d @
                 [setResult (fst (currentChannelSenseRequest d)) (isChannelIdle d)
                    (intensityOver rssiMap {snd (currentChannelSenseRequest d)..getSimTime phy}),
                  sendControlMsg (fst (currentChannelSenseRequest d))],
              currentChannelSenseRequest := (0, snd (currentChannelSenseRequest d))\<rparr>)"
  using assms
  by (simp add: answerCSR_def Let_def calcChannelSenseRSSI_Inr clamp_findMax)

lemma answerCSR_valid:
  assumes "channelInfoValid phy" and "fst (currentChannelSenseRequest d) \<noteq> 0"
  shows "\<exists>rssi. answerCSR phy d =
           (Inr (),
            d\<lparr>calls := calls d @
                 [setResult (fst (currentChannelSenseRequest d)) (isChannelIdle d) rssi,
                  sendControlMsg (fst (currentChannelSenseRequest d))],
              currentChannelSenseRequest := (0, snd (currentChannelSenseRequest d))\<rparr>)"
proof -
  obtain m where "calculateRSSIMapping phy (snd (currentChannelSenseRequest d)) (getSimTime phy) 0 = Inr m"
    using calculateRSSIMapping_valid [OF assms(1)] by blast
  from answerCSR_result [OF this assms(2)] show ?thesis by blast
qed

lemma canAnswerCSR_null: "fst requestInfo = 0 \<Longrightarrow> \<not> canAnswerCSR phy d requestInfo"
  by (simp add: canAnswerCSR_def)

lemma setChannelIdleStatus_idle:
  "\<not> canAnswerCSR phy (d\<lparr>isChannelIdle := isIdle\<rparr>) (currentChannelSenseRequest d) \<Longrightarrow>
   setChannelIdleStatus phy isIdle d = (Inr (), d\<lparr>isChannelIdle := isIdle\<rparr>)"
  by (simp add: setChannelIdleStatus_def Let_def)

lemma setChannelIdleStatus_answer:
  assumes "channelInfoValid phy"
    and "canAnswerCSR phy (d\<lparr>isChannelIdle := isIdle\<rparr>) (currentChannelSenseRequest d)"
  shows "\<exists>rssi. setChannelIdleStatus phy isIdle d =
           (Inr (),
            d\<lparr>isChannelIdle := isIdle,
              calls := calls d @
                 [cancelScheduledMessage (fst (currentChannelSenseRequest d)),
                  setResult (fst (currentChannelSenseRequest d)) isIdle rssi,
                  sendControlMsg (fst (currentChannelSenseRequest d))],
              currentChannelSenseRequest := (0, snd (currentChannelSenseRequest d))\<rparr>)"
proof -
  let ?r = "fst (currentChannelSenseRequest d)"
  let ?d2 = "d\<lparr>isChannelIdle := isIdle, calls := calls d @ [cancelScheduledMessage ?r]\<rparr>"
  have nz: "fst (currentChannelSenseRequest ?d2) \<noteq> 0"
    using assms(2) canAnswerCSR_null [of "currentChannelSenseRequest d"] by auto
  from answerCSR_valid [OF assms(1) nz] obtain rssi where
    "answerCSR phy ?d2 =
       (Inr (),
        ?d2\<lparr>calls := calls ?d2 @ [setResult ?r (isChannelIdle ?d2) rssi, sendControlMsg ?r],
            currentChannelSenseRequest := (0, snd (currentChannelSenseRequest ?d2))\<rparr>)"
    by auto
  with assms(2) show ?thesis
    by (auto simp add: setChannelIdleStatus_def Let_def)
qed

lemma setChannelIdleStatus_frame:
  assumes "channelInfoValid phy"
  shows "\<exists>d'. setChannelIdleStatus phy isIdle d = (Inr (), d')
           \<and> isChannelIdle d' = isIdle \<and> currentSignal d' = currentSignal d
           \<and> sensitivity d' = sensitivity d
           \<and> (\<exists>cs. calls d' = calls d @ cs \<and> sendUps cs = [])"
proof (cases "canAnswerCSR phy (d\<lparr>isChannelIdle := isIdle\<rparr>) (currentChannelSenseRequest d)")
  case True
  from setChannelIdleStatus_answer [OF assms True] show ?thesis by auto
next
  case False
  from setChannelIdleStatus_idle [OF False] show ?thesis by simp
qed

lemma canAnswerCSR_flag:
  "isChannelIdle d' = isChannelIdle d \<Longrightarrow> canAnswerCSR phy d' ri = canAnswerCSR phy d ri"
  by (simp add: canAnswerCSR_def split: SenseMode.split)

lemma calcChannelSenseRSSI_empty:
  assumes "getChannelInfo phy start endT = []" and "getThermalNoise phy start endT = None"
  shows "calcChannelSenseRSSI phy start endT = Inr (- DBL_MAX)"
proof -
  have "List.map_filter (\<lambda>t. None :: real option) ts = []" for ts :: "simtime_t list"
    by (induction ts) simp_all
  then show ?thesis
    using assms
    by (simp add: calcChannelSenseRSSI_def calculateRSSIMapping_def MappingUtils_createMapping_def
        MappingUtils_findMax_def)
qed

lemma snd_case_result:
  "snd (case x of (Inl e, d') \<Rightarrow> (Inl e, d') | (Inr u, d') \<Rightarrow> (Inr c, d')) = snd x"
  by (auto split: prod.split sum.split)

lemma answerCSR_currentSignal: "currentSignal (snd (answerCSR phy d)) = currentSignal d"
  by (simp add: answerCSR_def Let_def split: sum.split)

lemma setChannelIdleStatus_currentSignal:
  "currentSignal (snd (setChannelIdleStatus phy isIdle d)) = currentSignal d"
  by (simp add: setChannelIdleStatus_def Let_def answerCSR_currentSignal)

lemma handleChannelSenseRequest_currentSignal:
  "currentSignal (snd (handleChannelSenseRequest phy request d)) = currentSignal d"
  using answerCSR_currentSignal [of phy d]
    answerCSR_currentSignal [of phy "d\<lparr>currentChannelSenseRequest := (request, getSimTime phy)\<rparr>"]
  by (simp add: handleChannelSenseRequest_def handleNewSenseRequest_def
      handleSenseRequestTimeout_def Let_def snd_case_result)

lemma processNewSignal_invariant:
  "receptionInvariant d \<Longrightarrow> receptionInvariant (snd (processNewSignal phy frame d))"
  using setChannelIdleStatus_currentSignal [of phy False "d\<lparr>currentSignal := (frame, EXPECT_END)\<rparr>"]
  by (simp add: processNewSignal_def Let_def receptionInvariant_def snd_case_result)

lemma processSignalEnd_invariant:
  "receptionInvariant (snd (processSignalEnd phy frame d))"
  using setChannelIdleStatus_currentSignal
    [of phy True "d\<lparr>calls := calls d @ [sendUp frame True], currentSignal := (0, snd (currentSignal d))\<rparr>"]
  by (simp add: processSignalEnd_def Let_def receptionInvariant_def snd_case_result)

subsection \<open>Runs of the host\<close>

lemma canAnswerCSR_phyAt:
  "fst (currentChannelSenseRequest d) \<noteq> 0 \<Longrightarrow>
   canAnswerCSR (phyAt requests h phy) d (currentChannelSenseRequest d)
     = (modeFulfilled requests d \<or> clock h = wakeTime requests d)"
  by (simp add: canAnswerCSR_def phyAt_def modeFulfilled_def wakeTime_def)

lemma answerCSR_Inr:
  assumes "answerCSR phy d = (Inr u, d')"
  shows "fst (currentChannelSenseRequest d) \<noteq> 0
       \<and> (\<exists>rssi. d' = d\<lparr>calls := calls d @
                 [setResult (fst (currentChannelSenseRequest d)) (isChannelIdle d) rssi,
                  sendControlMsg (fst (currentChannelSenseRequest d))],
              currentChannelSenseRequest := (0, snd (currentChannelSenseRequest d))\<rparr>)"
  using assms
  by (auto simp add: answerCSR_def Let_def split: sum.splits if_splits)

lemma setChannelIdleStatus_Inr:
  assumes "setChannelIdleStatus phy isIdle d = (Inr u, d')"
  shows "(canAnswerCSR phy (d\<lparr>isChannelIdle := isIdle\<rparr>) (currentChannelSenseRequest d)
          \<and> fst (currentChannelSenseRequest d) \<noteq> 0
          \<and> (\<exists>rssi. d' = d\<lparr>isChannelIdle := isIdle,
                 calls := calls d @
                   [cancelScheduledMessage (fst (currentChannelSenseRequest d)),
                    setResult (fst (currentChannelSenseRequest d)) isIdle rssi,
                    sendControlMsg (fst (currentChannelSenseRequest d))],
                 currentChannelSenseRequest := (0, snd (currentChannelSenseRequest d))\<rparr>))
       \<or> (\<not> canAnswerCSR phy (d\<lparr>isChannelIdle := isIdle\<rparr>) (currentChannelSenseRequest d)
          \<and> d' = d\<lparr>isChannelIdle := isIdle\<rparr>)"
proof (cases "canAnswerCSR phy (d\<lparr>isChannelIdle := isIdle\<rparr>) (currentChannelSenseRequest d)")
  case True
  then have "answerCSR phy
      (d\<lparr>isChannelIdle := isIdle,
         calls := calls d @ [cancelScheduledMessage (fst (currentChannelSenseRequest d))]\<rparr>)
      = (Inr u, d')"
    using assms by (simp add: setChannelIdleStatus_def Let_def)
  from answerCSR_Inr [OF this] True show ?thesis by auto
next
  case False
  then show ?thesis using assms by (simp add: setChannelIdleStatus_def Let_def)
qed

lemma processSignal_Inr:
  assumes "receptionInvariant d" and "processSignal v phy frame d = (Inr t, d')"
  shows "d' = d
       \<or> setChannelIdleStatus phy False (d\<lparr>currentSignal := (frame, EXPECT_END)\<rparr>) = (Inr (), d')
       \<or> setChannelIdleStatus phy True
            (d\<lparr>calls := calls d @ [sendUp frame True],
               currentSignal := (0, snd (currentSignal d))\<rparr>) = (Inr (), d')"
proof -
  have nz: "frame \<noteq> 0"
    using assms(2) by (cases "frame = 0") (simp_all add: processSignal_def)
  then have st: "getSignalState frame d = NEW \<or> getSignalState frame d = EXPECT_END"
    using assms(1) by (auto simp add: getSignalState_def receptionInvariant_def)
  then show ?thesis
  proof
    assume "getSignalState frame d = NEW"
    then have "processNewSignal phy frame d = (Inr t, d')"
      using assms(2) nz by (simp add: processSignal_def)
    then show ?thesis
      by (auto simp add: processNewSignal_def Let_def split: if_splits prod.splits sum.splits)
  next
    assume "getSignalState frame d = EXPECT_END"
    then have "processSignalEnd phy frame d = (Inr t, d')"
      using assms(2) nz by (simp add: processSignal_def SignalState_distinct)
    then show ?thesis
      by (auto simp add: processSignalEnd_def Let_def split: prod.splits sum.splits)
  qed
qed


lemma handleNewRequest_Inr:
  assumes "fst (currentChannelSenseRequest d) = 0"
    and "handleChannelSenseRequest phy request d = (Inr t, d')"
  shows "request \<noteq> 0
       \<and> (canAnswerCSR phy (d\<lparr>currentChannelSenseRequest := (request, getSimTime phy)\<rparr>)
             (request, getSimTime phy)
           \<and> t = notAgain
           \<and> (\<exists>rssi. d' = d\<lparr>calls := calls d @
                   [setResult request (isChannelIdle d) rssi, sendControlMsg request],
                 currentChannelSenseRequest := (0, getSimTime phy)\<rparr>)
          \<or> \<not> canAnswerCSR phy (d\<lparr>currentChannelSenseRequest := (request, getSimTime phy)\<rparr>)
                (request, getSimTime phy)
           \<and> t = SimTime_add (getSimTime phy) (getSenseTimeout (getRequest phy request))
           \<and> d' = d\<lparr>currentChannelSenseRequest := (request, getSimTime phy)\<rparr>)"
proof -
  let ?d1 = "d\<lparr>currentChannelSenseRequest := (request, getSimTime phy)\<rparr>"
  have nz: "request \<noteq> 0"
    using assms(2) by (cases "request = 0") (simp_all add: handleChannelSenseRequest_def)
  then have new: "handleNewSenseRequest phy request d = (Inr t, d')"
    using assms by (simp add: handleChannelSenseRequest_def)
  show ?thesis
  proof (cases "canAnswerCSR phy ?d1 (request, getSimTime phy)")
    case True
    then obtain u where "answerCSR phy ?d1 = (Inr u, d')" and "t = notAgain"
      using new
      by (auto simp add: handleNewSenseRequest_def Let_def split: prod.splits sum.splits)
    from answerCSR_Inr [OF this(1)] True nz \<open>t = notAgain\<close> show ?thesis by auto
  next
    case False
    then show ?thesis
      using new nz by (simp add: handleNewSenseRequest_def Let_def)
  qed
qed

lemma handleTimeout_Inr:
  assumes "fst (currentChannelSenseRequest d) = request" and "request \<noteq> 0"
    and "handleChannelSenseRequest phy request d = (Inr t, d')"
  shows "t = notAgain
       \<and> (\<exists>rssi. d' = d\<lparr>calls := calls d @
               [setResult request (isChannelIdle d) rssi, sendControlMsg request],
             currentChannelSenseRequest := (0, snd (currentChannelSenseRequest d))\<rparr>)"
proof -
  obtain u where "answerCSR phy d = (Inr u, d')" and "t = notAgain"
    using assms
    by (auto simp add: handleChannelSenseRequest_def handleSenseRequestTimeout_def
        split: prod.splits sum.splits)
  from answerCSR_Inr [OF this(1)] assms(1) \<open>t = notAgain\<close> show ?thesis by auto
qed

lemma cancelScheduled_own:
  "sch = None \<or> sch = Some (r, w) \<Longrightarrow>
   cancelScheduled (pre @ [cancelScheduledMessage r, setResult r b x, sendControlMsg r]) sch = None"
  if "pre = [] \<or> pre = [sendUp frame True]"
  using that by auto

lemma flip_effect:
  assumes J: "hostInvariant requests h"
    and same: "currentChannelSenseRequest d1 = currentChannelSenseRequest (decider h)"
    and pre: "calls d1 = calls (decider h) @ pre" "pre = [] \<or> pre = [sendUp frame True]"
    and inv1: "receptionInvariant d1"
    and flip: "setChannelIdleStatus (phyAt requests h phy) isIdle d1 = (Inr (), d')"
    and h': "h' = h\<lparr>decider := d', scheduled := cancelScheduled (newCalls (decider h) d') (scheduled h)\<rparr>"
  shows "hostInvariant requests h' \<and> clock h = clock h'
       \<and> (answers (calls (decider h')) = answers (calls (decider h))
            \<and> currentChannelSenseRequest (decider h') = currentChannelSenseRequest (decider h)
          \<or> fst (currentChannelSenseRequest (decider h)) \<noteq> 0
            \<and> answers (calls (decider h'))
                = answers (calls (decider h)) @ [fst (currentChannelSenseRequest (decider h))]
            \<and> fst (currentChannelSenseRequest (decider h')) = 0)"
proof -
  let ?r = "fst (currentChannelSenseRequest d1)"
  let ?d2 = "d1\<lparr>isChannelIdle := isIdle\<rparr>"
  from setChannelIdleStatus_Inr [OF flip]
  consider (answered) rssi where "?r \<noteq> 0"
      "d' = d1\<lparr>isChannelIdle := isIdle,
               calls := calls d1 @ [cancelScheduledMessage ?r, setResult ?r isIdle rssi, sendControlMsg ?r],
               currentChannelSenseRequest := (0, snd (currentChannelSenseRequest d1))\<rparr>"
    | (waiting) "\<not> canAnswerCSR (phyAt requests h phy) ?d2 (currentChannelSenseRequest d1)"
      "d' = ?d2"
    by blast
  then show ?thesis
  proof cases
    case answered
    have nc: "newCalls (decider h) d'
        = pre @ [cancelScheduledMessage ?r, setResult ?r isIdle rssi, sendControlMsg ?r]"
      using answered(2) pre(1) by (simp add: newCalls_def)
    have sch: "scheduled h = None \<or> scheduled h = Some (?r, wakeTime requests (decider h))"
      using J answered(1) same by (auto simp add: hostInvariant_def)
    have "scheduled h' = None"
      unfolding h' nc using cancelScheduled_own [OF pre(2) sch] by simp
    moreover have "answers (calls d') = answers (calls (decider h)) @ [?r]"
      using answered(2) pre by (auto simp add: answers_append)
    moreover have "receptionInvariant d'"
      using inv1 answered(2) by (simp add: receptionInvariant_def)
    ultimately show ?thesis
      using J answered same h' by (simp add: hostInvariant_def)
  next
    case waiting
    have nc: "newCalls (decider h) d' = pre"
      using waiting(2) pre(1) by (simp add: newCalls_def)
    have sch: "scheduled h' = scheduled h"
      unfolding h' nc using pre(2) by auto
    have inv: "receptionInvariant d'"
      using inv1 waiting(2) by (simp add: receptionInvariant_def)
    have mode: "\<not> modeFulfilled requests d'" if "fst (currentChannelSenseRequest (decider h)) \<noteq> 0"
      using canAnswerCSR_phyAt [of ?d2 requests h phy] waiting that same by simp
    have wake: "wakeTime requests d' = wakeTime requests (decider h)"
      using waiting(2) same by (simp add: wakeTime_def)
    have "answers (calls d') = answers (calls (decider h))"
      using waiting(2) pre by (auto simp add: answers_append)
    then show ?thesis
      using J sch inv mode wake waiting(2) same h' by (simp add: hostInvariant_def)
  qed
qed


lemma step_effect:
  assumes J: "hostInvariant requests h" and st: "step v requests e h = Some h'"
  shows "hostInvariant requests h' \<and> clock h \<le> clock h'
       \<and> (answers (calls (decider h')) = answers (calls (decider h))
            \<and> currentChannelSenseRequest (decider h') = currentChannelSenseRequest (decider h)
            \<and> newRequests [e] = []
          \<or> fst (currentChannelSenseRequest (decider h)) \<noteq> 0
            \<and> answers (calls (decider h'))
                = answers (calls (decider h)) @ [fst (currentChannelSenseRequest (decider h))]
            \<and> fst (currentChannelSenseRequest (decider h')) = 0
            \<and> newRequests [e] = []
          \<or> fst (currentChannelSenseRequest (decider h)) = 0
            \<and> (\<exists>r. r \<noteq> 0 \<and> newRequests [e] = [r]
                 \<and> (answers (calls (decider h')) = answers (calls (decider h)) @ [r]
                      \<and> fst (currentChannelSenseRequest (decider h')) = 0
                    \<or> answers (calls (decider h')) = answers (calls (decider h))
                      \<and> fst (currentChannelSenseRequest (decider h')) = r)))"
proof (cases e)
  case (advance t)
  then have "h' = h\<lparr>clock := t\<rparr>" and "clock h < t"
    and "case scheduled h of None \<Rightarrow> True | Some (r, w) \<Rightarrow> t \<le> w"
    using st by (auto split: if_splits)
  then show ?thesis
    using J advance by (auto simp add: hostInvariant_def modeFulfilled_def wakeTime_def)
next
  case (frameEvent phy frame)
  let ?d = "decider h"
  from st frameEvent obtain t d' where
    ps: "processSignal v (phyAt requests h phy) frame ?d = (Inr t, d')"
    and h': "h' = h\<lparr>decider := d', scheduled := cancelScheduled (newCalls ?d d') (scheduled h)\<rparr>"
    by (auto split: prod.splits sum.splits)
  have inv: "receptionInvariant ?d"
    using J by (simp add: hostInvariant_def)
  from processSignal_Inr [OF inv ps]
  consider (same) "d' = ?d"
    | (start) "setChannelIdleStatus (phyAt requests h phy) False
                 (?d\<lparr>currentSignal := (frame, EXPECT_END)\<rparr>) = (Inr (), d')"
    | (finish) "setChannelIdleStatus (phyAt requests h phy) True
                 (?d\<lparr>calls := calls ?d @ [sendUp frame True],
                     currentSignal := (0, snd (currentSignal ?d))\<rparr>) = (Inr (), d')"
    by blast
  then show ?thesis
  proof cases
    case same
    then have "h' = h"
      using h' by (simp add: newCalls_def)
    then show ?thesis using J frameEvent by simp
  next
    case start
    have "receptionInvariant (?d\<lparr>currentSignal := (frame, EXPECT_END)\<rparr>)"
      by (simp add: receptionInvariant_def)
    from flip_effect [OF J _ _ _ this start h', of "[]" frame]
    show ?thesis using frameEvent by auto
  next
    case finish
    have "receptionInvariant
            (?d\<lparr>calls := calls ?d @ [sendUp frame True], currentSignal := (0, snd (currentSignal ?d))\<rparr>)"
      by (simp add: receptionInvariant_def)
    from flip_effect [OF J _ _ _ this finish h', of "[sendUp frame True]" frame]
    show ?thesis using frameEvent by auto
  qed
next
  case (newRequest phy request)
  let ?d = "decider h"
  let ?phy = "phyAt requests h phy"
  from st newRequest obtain t d' sch where
    none: "fst (currentChannelSenseRequest ?d) = 0"
    and hr: "handleChannelSenseRequest ?phy request ?d = (Inr t, d')"
    and sc: "scheduleAt request t (clock h) (cancelScheduled (newCalls ?d d') (scheduled h)) = Some sch"
    and h': "h' = h\<lparr>decider := d', scheduled := sch\<rparr>"
    by (auto split: if_splits prod.splits sum.splits option.splits)
  have sn: "scheduled h = None" and inv: "receptionInvariant ?d" and c0: "0 \<le> clock h"
    using J none by (simp_all add: hostInvariant_def)
  have now: "getSimTime ?phy = clock h" and rq: "getRequest ?phy = requests"
    by (simp_all add: phyAt_def)
  let ?d1 = "?d\<lparr>currentChannelSenseRequest := (request, clock h)\<rparr>"
  from handleNewRequest_Inr [OF none hr]
  consider (answered) rssi where "request \<noteq> 0" "t = notAgain"
      "d' = ?d\<lparr>calls := calls ?d @ [setResult request (isChannelIdle ?d) rssi, sendControlMsg request],
                currentChannelSenseRequest := (0, clock h)\<rparr>"
    | (recorded) "request \<noteq> 0" "\<not> canAnswerCSR ?phy ?d1 (request, clock h)"
      "t = SimTime_add (clock h) (getSenseTimeout (requests request))" "d' = ?d1"
    unfolding now rq by blast
  then show ?thesis
  proof cases
    case answered
    have "sch = None"
      using sc answered sn by (simp add: scheduleAt_def newCalls_def)
    then show ?thesis
      using answered h' J none inv newRequest
      by (simp add: hostInvariant_def receptionInvariant_def answers_append)
  next
    case recorded
    have wake: "wakeTime requests d' = t"
      using recorded by (simp add: wakeTime_def)
    have mode: "\<not> modeFulfilled requests d'"
      using canAnswerCSR_phyAt [of ?d1 requests h phy] recorded by simp
    have "sch = None \<and> t = notAgain \<or> sch = Some (request, t) \<and> clock h \<le> t"
      using sc recorded(4) sn by (auto simp add: scheduleAt_def newCalls_def split: if_splits)
    then show ?thesis
      using recorded(1,4) h' J none inv newRequest wake mode
      by (auto simp add: hostInvariant_def receptionInvariant_def)
  qed
next
  case (timeoutFires phy)
  let ?d = "decider h"
  let ?phy = "phyAt requests h phy"
  from st timeoutFires obtain r w t d' sch where
    sh: "scheduled h = Some (r, w)" and cw: "clock h = w"
    and hr: "handleChannelSenseRequest ?phy r ?d = (Inr t, d')"
    and sc: "scheduleAt r t (clock h) (cancelScheduled (newCalls ?d d') None) = Some sch"
    and h': "h' = h\<lparr>decider := d', scheduled := sch\<rparr>"
    by (auto split: if_splits prod.splits sum.splits option.splits)
  have pend: "fst (currentChannelSenseRequest ?d) = r" and nz: "r \<noteq> 0"
    and inv: "receptionInvariant ?d"
    using J sh by (auto simp add: hostInvariant_def split: if_splits)
  from handleTimeout_Inr [OF pend nz hr] obtain rssi where
    ans: "t = notAgain"
      "d' = ?d\<lparr>calls := calls ?d @ [setResult r (isChannelIdle ?d) rssi, sendControlMsg r],
                currentChannelSenseRequest := (0, snd (currentChannelSenseRequest ?d))\<rparr>"
    by blast
  have "sch = None"
    using sc ans by (simp add: scheduleAt_def newCalls_def)
  then show ?thesis
    using ans h' J pend nz inv timeoutFires
    by (simp add: hostInvariant_def receptionInvariant_def answers_append)
qed


lemma newRequests_Cons: "newRequests (e # es) = newRequests [e] @ newRequests es"
  by (cases e) simp_all

lemma initialHost_invariant: "initialHost h \<Longrightarrow> hostInvariant requests h"
  by (simp add: initialHost_def hostInvariant_def receptionInvariant_def)

lemma run_effect:
  assumes "hostInvariant requests h" and "run v requests es h = Some h'"
  shows "hostInvariant requests h' \<and> clock h \<le> clock h'
       \<and> answers (calls (decider h')) @ pendingRequests (decider h')
           = answers (calls (decider h)) @ pendingRequests (decider h) @ newRequests es
       \<and> (\<exists>extra. answers (calls (decider h')) = answers (calls (decider h)) @ extra
            \<and> (extra = [] \<and> fst (currentChannelSenseRequest (decider h)) \<noteq> 0 \<longrightarrow>
                 currentChannelSenseRequest (decider h') = currentChannelSenseRequest (decider h)))"
  using assms
proof (induction es arbitrary: h)
  case Nil
  then show ?case by simp
next
  case (Cons e es)
  from Cons.prems(2) obtain h1 where s1: "step v requests e h = Some h1"
    and r1: "run v requests es h1 = Some h'"
    by (auto split: option.splits)
  note eff = step_effect [OF Cons.prems(1) s1]
  then have J1: "hostInvariant requests h1" by blast
  note ih = Cons.IH [OF J1 r1]
  from ih obtain extra where
    ex: "answers (calls (decider h')) = answers (calls (decider h1)) @ extra"
    and keep: "extra = [] \<and> fst (currentChannelSenseRequest (decider h1)) \<noteq> 0 \<longrightarrow>
                 currentChannelSenseRequest (decider h') = currentChannelSenseRequest (decider h1)"
    by blast
  have acc: "answers (calls (decider h1)) @ pendingRequests (decider h1)
           = answers (calls (decider h)) @ pendingRequests (decider h) @ newRequests [e]"
    using eff by (auto simp add: pendingRequests_def)
  have "answers (calls (decider h')) @ pendingRequests (decider h')
           = answers (calls (decider h)) @ pendingRequests (decider h) @ newRequests (e # es)"
    using ih acc newRequests_Cons [of e es] by simp
  moreover have "\<exists>extra. answers (calls (decider h')) = answers (calls (decider h)) @ extra
            \<and> (extra = [] \<and> fst (currentChannelSenseRequest (decider h)) \<noteq> 0 \<longrightarrow>
                 currentChannelSenseRequest (decider h') = currentChannelSenseRequest (decider h))"
    using eff ex keep by auto
  moreover have "clock h \<le> clock h'"
    using eff ih by auto
  ultimately show ?case using ih by blast
qed

subsection \<open>The scenario, evaluated\<close>

lemmas example_defs = upto.simps examplePhy_def exampleDecider_def exampleVirtuals_def
  examplePower_def SimTime_add_def

lemmas decider_defs = processSignal_def getSignalState_def processNewSignal_def
  processSignalEnd_def setChannelIdleStatus_def canAnswerCSR_def answerCSR_def
  calcChannelSenseRSSI_def calculateRSSIMapping_def MappingUtils_createMapping_def
  MappingUtils_add_def MappingUtils_findMax_def getValue_def handleChannelSenseRequest_def
  handleNewSenseRequest_def handleSenseRequestTimeout_def getChannelState_def

lemma examplePhy_valid: "channelInfoValid (examplePhy now)"
  by (simp add: channelInfoValid_def examplePhy_def)

lemma example_request:
  "handleChannelSenseRequest (examplePhy 0) 9 (exampleDecider s) =
     (Inr 5, exampleDecider s\<lparr>currentChannelSenseRequest := (9, 0)\<rparr>)"
  by (simp add: example_defs decider_defs Let_def)

lemma example_accept:
  "processSignal exampleVirtuals (examplePhy 2) 7
     (exampleDecider 1\<lparr>currentChannelSenseRequest := (9, 0)\<rparr>) =
     (Inr 12,
      \<lparr>sensitivity = 1, currentSignal = (7, EXPECT_END), isChannelIdle = False,
       currentChannelSenseRequest = (0, 0),
       calls = [cancelScheduledMessage 9, setResult 9 False 3, sendControlMsg 9]\<rparr>)"
  by (simp add: example_defs decider_defs Let_def SignalState_distinct)

lemma example_rssi_window:
  "calculateRSSIMapping (examplePhy 2) 0 2 0 = Inr (MappingUtils_add examplePower (\<lambda>t. None) 0)"
  by (simp add: calculateRSSIMapping_def examplePhy_def MappingUtils_createMapping_def)

lemma example_timeout:
  "handleChannelSenseRequest (examplePhy 1) 9 (exampleDecider s\<lparr>currentChannelSenseRequest := (9, 0)\<rparr>) =
     (Inr notAgain,
      exampleDecider s\<lparr>currentChannelSenseRequest := (0, 0),
                        calls := [setResult 9 True 0, sendControlMsg 9]\<rparr>)"
  using DBL_MAX_positive
  by (simp add: example_defs decider_defs Let_def notAgain_def)

lemmas host_defs = exampleHost_def phyAt_def scheduleAt_def newCalls_def notAgain_def
  SimTime_representable_def

lemma example_run_answered_early:
  "run exampleVirtuals (getRequest (examplePhy 0))
     [newRequest (examplePhy 0) 9, advance 2, frameEvent (examplePhy 0) 7, advance 12,
      frameEvent (examplePhy 0) 7]
     (exampleHost 1)
   = Some \<lparr>decider =
             \<lparr>sensitivity = 1, currentSignal = (0, EXPECT_END), isChannelIdle = True,
              currentChannelSenseRequest = (0, 0),
              calls = [cancelScheduledMessage 9, setResult 9 False 3, sendControlMsg 9,
                       sendUp 7 True]\<rparr>,
           clock = 12, scheduled = None\<rparr>"
  by (simp add: host_defs example_defs decider_defs Let_def SignalState_distinct)

lemma example_run_pending:
  "run exampleVirtuals (getRequest (examplePhy 0))
     [newRequest (examplePhy 0) 9, advance 5] (exampleHost 5)
   = Some \<lparr>decider = exampleDecider 5\<lparr>currentChannelSenseRequest := (9, 0)\<rparr>,
           clock = 5, scheduled = Some (9, 5)\<rparr>"
  by (simp add: host_defs example_defs decider_defs Let_def SignalState_distinct)

lemma example_run_weak_frame:
  "run exampleVirtuals (getRequest (examplePhy 0)) [frameEvent (examplePhy 0) 7]
     \<lparr>decider = exampleDecider 5\<lparr>currentChannelSenseRequest := (9, 0)\<rparr>,
      clock = 5, scheduled = Some (9, 5)\<rparr>
   = Some \<lparr>decider = exampleDecider 5\<lparr>currentChannelSenseRequest := (9, 0)\<rparr>,
           clock = 5, scheduled = Some (9, 5)\<rparr>"
  by (simp add: host_defs example_defs decider_defs Let_def SignalState_distinct)

section \<open>The claims\<close>

subsection \<open>Accepting and rejecting a new frame\<close>

text \<open>
  Claim C1. A frame that is not null and not tracked (its state is \<open>NEW\<close>), arriving
  while no reception is in progress, whose power at its own start is at least the
  sensitivity, is accepted: \<open>processSignal\<close> records it as the current reception in
  state \<open>EXPECT_END\<close>, sets the channel busy and returns the frame's start plus its
  length. The frame's start, length and end are assumed to be representable times, so
  that the kernel's sum is the exact one. The physical layer is assumed to hand out no null frame, since
  the answer to a pending sense request, which the flip to busy may trigger, asserts it.
\<close>

theorem processSignal_accepts_strong_frame:
  assumes "frame \<noteq> 0"
    and "fst (currentSignal d) = 0"
    and "sensitivity d \<le>
           getValue (getReceivingPower (getSignal phy frame)) (getSignalStart (getSignal phy frame))"
    and "channelInfoValid phy"
    and "SimTime_representable
           (getSignalStart (getSignal phy frame) + getSignalLength (getSignal phy frame))"
    and "SimTime_representable (getSignalStart (getSignal phy frame))"
    and "SimTime_representable (getSignalLength (getSignal phy frame))"
  shows "getSignalState frame d = NEW
       \<and> fst (processSignal v phy frame d) =
           Inr (getSignalStart (getSignal phy frame) + getSignalLength (getSignal phy frame))
       \<and> currentSignal (snd (processSignal v phy frame d)) = (frame, EXPECT_END)
       \<and> isChannelIdle (snd (processSignal v phy frame d)) = False"
proof -
  have new: "getSignalState frame d = NEW"
    using assms(1,2) by (simp add: getSignalState_def)
  obtain d' where flip: "setChannelIdleStatus phy False (d\<lparr>currentSignal := (frame, EXPECT_END)\<rparr>) = (Inr (), d')"
    and "isChannelIdle d' = False" and "currentSignal d' = (frame, EXPECT_END)"
    using setChannelIdleStatus_frame [OF assms(4), of False "d\<lparr>currentSignal := (frame, EXPECT_END)\<rparr>"]
    by auto
  then show ?thesis
    using assms(1,2,3) new SimTime_add_exact [OF assms(5)]
    by (simp add: processSignal_def processNewSignal_def Let_def)
qed

theorem processSignal_accepts_strong_frame_witness:
  "fst (currentSignal (exampleDecider 1)) = 0
   \<and> sensitivity (exampleDecider 1) \<le>
       getValue (getReceivingPower (getSignal (examplePhy 2) 7)) (getSignalStart (getSignal (examplePhy 2) 7))
   \<and> channelInfoValid (examplePhy 2)
   \<and> SimTime_representable
        (getSignalStart (getSignal (examplePhy 2) 7) + getSignalLength (getSignal (examplePhy 2) 7))
   \<and> SimTime_representable (getSignalStart (getSignal (examplePhy 2) 7))
   \<and> SimTime_representable (getSignalLength (getSignal (examplePhy 2) 7))
   \<and> fst (processSignal exampleVirtuals (examplePhy 2) 7 (exampleDecider 1)) = Inr 12
   \<and> currentSignal (snd (processSignal exampleVirtuals (examplePhy 2) 7 (exampleDecider 1)))
       = (7, EXPECT_END)
   \<and> isChannelIdle (snd (processSignal exampleVirtuals (examplePhy 2) 7 (exampleDecider 1))) = False"
  using processSignal_accepts_strong_frame
    [where frame = 7 and d = "exampleDecider 1" and phy = "examplePhy 2" and v = exampleVirtuals]
    examplePhy_valid [of 2]
  by (simp add: examplePhy_def exampleDecider_def examplePower_def getValue_def
      SimTime_representable_def)

text \<open>
  Claim C9. A frame that is not tracked, arriving while no reception is in progress, whose
  power at its own start is strictly below the sensitivity, is rejected:
  \<open>processSignal\<close> returns \<open>notAgain\<close> and leaves the whole decider as it was, so
  the occupancy flag, the current reception and the pending sense request keep their
  values and no call is made.
\<close>

theorem processSignal_rejects_weak_frame:
  assumes "frame \<noteq> 0"
    and "fst (currentSignal d) = 0"
    and "getValue (getReceivingPower (getSignal phy frame)) (getSignalStart (getSignal phy frame))
           < sensitivity d"
  shows "processSignal v phy frame d = (Inr notAgain, d)"
  using assms
  by (simp add: processSignal_def getSignalState_def processNewSignal_def Let_def)

theorem processSignal_rejects_weak_frame_witness:
  "fst (currentSignal (exampleDecider 5)) = 0
   \<and> getValue (getReceivingPower (getSignal (examplePhy 2) 7)) (getSignalStart (getSignal (examplePhy 2) 7))
       < sensitivity (exampleDecider 5)
   \<and> processSignal exampleVirtuals (examplePhy 2) 7 (exampleDecider 5)
       = (Inr notAgain, exampleDecider 5)"
  using processSignal_rejects_weak_frame
    [where frame = 7 and d = "exampleDecider 5" and phy = "examplePhy 2" and v = exampleVirtuals]
  by (simp add: examplePhy_def exampleDecider_def examplePower_def getValue_def)

text \<open>
  Claim C2. The decider has one record for the current reception, so at most one frame is
  in state \<open>EXPECT_END\<close>. A frame in state \<open>NEW\<close> that arrives while another frame
  is recorded is rejected: \<open>processSignal\<close> returns \<open>notAgain\<close> and leaves the whole
  decider as it was. The result is the same for every physical layer, hence for every
  power the new frame may have: the power is not read.
\<close>

theorem processSignal_rejects_second_frame:
  assumes "frame \<noteq> 0"
    and "getSignalState frame d = NEW"
    and "fst (currentSignal d) \<noteq> 0"
  shows "processSignal v phy frame d = (Inr notAgain, d)
       \<and> processSignal v phy' frame d = processSignal v phy frame d"
  using assms
  by (simp add: processSignal_def processNewSignal_def)

theorem processSignal_rejects_second_frame_witness:
  "getSignalState 8 (exampleDecider 1\<lparr>currentSignal := (7, EXPECT_END), isChannelIdle := False\<rparr>) = NEW
   \<and> processSignal exampleVirtuals (examplePhy 3) 8
         (exampleDecider 1\<lparr>currentSignal := (7, EXPECT_END), isChannelIdle := False\<rparr>)
       = (Inr notAgain, exampleDecider 1\<lparr>currentSignal := (7, EXPECT_END), isChannelIdle := False\<rparr>)"
  using processSignal_rejects_second_frame
    [where frame = 8 and v = exampleVirtuals and phy = "examplePhy 3" and phy' = "examplePhy 3"
       and d = "exampleDecider 1\<lparr>currentSignal := (7, EXPECT_END), isChannelIdle := False\<rparr>"]
  by (simp add: getSignalState_def)

subsection \<open>The end of a reception\<close>

text \<open>
  Claim C3. When \<open>processSignal\<close> is called again for the frame recorded as the current
  reception, in state \<open>EXPECT_END\<close>, it hands the frame to \<open>sendUp\<close> exactly once, with
  a positive result, clears the record, sets the channel idle and returns \<open>notAgain\<close>.
  The physical layer is assumed to hand out no null frame, as for C1.
\<close>

theorem processSignal_delivers_at_end:
  assumes "frame \<noteq> 0"
    and "currentSignal d = (frame, EXPECT_END)"
    and "channelInfoValid phy"
  shows "fst (processSignal v phy frame d) = Inr notAgain
       \<and> sendUps (calls (snd (processSignal v phy frame d))) = sendUps (calls d) @ [(frame, True)]
       \<and> fst (currentSignal (snd (processSignal v phy frame d))) = 0
       \<and> isChannelIdle (snd (processSignal v phy frame d)) = True"
proof -
  let ?d2 = "d\<lparr>calls := calls d @ [sendUp frame True], currentSignal := (0, EXPECT_END)\<rparr>"
  obtain d' cs where "setChannelIdleStatus phy True ?d2 = (Inr (), d')"
    and "isChannelIdle d' = True" and "currentSignal d' = currentSignal ?d2"
    and "calls d' = calls ?d2 @ cs" and "sendUps cs = []"
    using setChannelIdleStatus_frame [OF assms(3), of True ?d2] by auto
  then show ?thesis
    using assms(1,2)
    by (simp add: processSignal_def getSignalState_def processSignalEnd_def Let_def
        SignalState_distinct sendUps_append)
qed

theorem processSignal_delivers_at_end_witness:
  "currentSignal (snd (processSignal exampleVirtuals (examplePhy 2) 7
                        (exampleDecider 1\<lparr>currentChannelSenseRequest := (9, 0)\<rparr>)))
     = (7, EXPECT_END)
   \<and> channelInfoValid (examplePhy 12)
   \<and> fst (processSignal exampleVirtuals (examplePhy 12) 7
            (snd (processSignal exampleVirtuals (examplePhy 2) 7
                    (exampleDecider 1\<lparr>currentChannelSenseRequest := (9, 0)\<rparr>))))
       = Inr notAgain
   \<and> sendUps (calls (snd (processSignal exampleVirtuals (examplePhy 12) 7
            (snd (processSignal exampleVirtuals (examplePhy 2) 7
                    (exampleDecider 1\<lparr>currentChannelSenseRequest := (9, 0)\<rparr>))))))
       = [(7, True)]
   \<and> isChannelIdle (snd (processSignal exampleVirtuals (examplePhy 12) 7
            (snd (processSignal exampleVirtuals (examplePhy 2) 7
                    (exampleDecider 1\<lparr>currentChannelSenseRequest := (9, 0)\<rparr>)))))"
  using processSignal_delivers_at_end
    [where frame = 7 and v = exampleVirtuals and phy = "examplePhy 12"
       and d = "snd (processSignal exampleVirtuals (examplePhy 2) 7
                      (exampleDecider 1\<lparr>currentChannelSenseRequest := (9, 0)\<rparr>))"]
    examplePhy_valid [of 12]
  by (simp add: example_accept)

subsection \<open>Answering a sense request\<close>

text \<open>
  Claim C4, as amended. The claim as stated takes the maximum over the half-open interval
  from the request's arrival to now; the code passes both borders to \<open>findMax\<close>, whose
  maximum includes them. In each of the three ways a request is answered (its timeout
  firing, a flip of the occupancy flag, or at once on arrival) the intensity written into
  the request is the maximum of the accumulated power mapping over the closed interval from
  the request's arrival to now, with a negative maximum and an empty mapping giving zero;
  the request is then handed to \<open>sendControlMsg\<close> and the pending record is cleared.
\<close>

theorem sense_answer_intensity:
  assumes "request \<noteq> 0"
    and "calculateRSSIMapping phy arrival (getSimTime phy) 0 = Inr rssiMap"
  shows "(currentChannelSenseRequest d = (request, arrival) \<longrightarrow>
            handleChannelSenseRequest phy request d =
              (Inr notAgain,
               d\<lparr>calls := calls d @
                    [setResult request (isChannelIdle d)
                       (intensityOver rssiMap {arrival..getSimTime phy}),
                     sendControlMsg request],
                 currentChannelSenseRequest := (0, arrival)\<rparr>))
       \<and> (currentChannelSenseRequest d = (request, arrival)
            \<and> canAnswerCSR phy (d\<lparr>isChannelIdle := isIdle\<rparr>) (request, arrival) \<longrightarrow>
            setChannelIdleStatus phy isIdle d =
              (Inr (),
               d\<lparr>isChannelIdle := isIdle,
                 calls := calls d @
                    [cancelScheduledMessage request,
                     setResult request isIdle (intensityOver rssiMap {arrival..getSimTime phy}),
                     sendControlMsg request],
                 currentChannelSenseRequest := (0, arrival)\<rparr>))
       \<and> (fst (currentChannelSenseRequest d) = 0 \<and> arrival = getSimTime phy
            \<and> canAnswerCSR phy d (request, arrival) \<longrightarrow>
            handleChannelSenseRequest phy request d =
              (Inr notAgain,
               d\<lparr>calls := calls d @
                    [setResult request (isChannelIdle d)
                       (intensityOver rssiMap {arrival..getSimTime phy}),
                     sendControlMsg request],
                 currentChannelSenseRequest := (0, arrival)\<rparr>))"
proof (intro conjI impI)
  assume cur: "currentChannelSenseRequest d = (request, arrival)"
  have "answerCSR phy d =
      (Inr (),
       d\<lparr>calls := calls d @
            [setResult request (isChannelIdle d) (intensityOver rssiMap {arrival..getSimTime phy}),
             sendControlMsg request],
         currentChannelSenseRequest := (0, arrival)\<rparr>)"
    using answerCSR_result [of phy d rssiMap] assms cur by simp
  then show "handleChannelSenseRequest phy request d =
      (Inr notAgain,
       d\<lparr>calls := calls d @
            [setResult request (isChannelIdle d) (intensityOver rssiMap {arrival..getSimTime phy}),
             sendControlMsg request],
         currentChannelSenseRequest := (0, arrival)\<rparr>)"
    using assms(1) cur
    by (simp add: handleChannelSenseRequest_def handleSenseRequestTimeout_def)
next
  assume a: "currentChannelSenseRequest d = (request, arrival)
     \<and> canAnswerCSR phy (d\<lparr>isChannelIdle := isIdle\<rparr>) (request, arrival)"
  let ?d2 = "d\<lparr>isChannelIdle := isIdle, calls := calls d @ [cancelScheduledMessage request]\<rparr>"
  have "answerCSR phy ?d2 =
      (Inr (),
       ?d2\<lparr>calls := calls ?d2 @
            [setResult request (isChannelIdle ?d2) (intensityOver rssiMap {arrival..getSimTime phy}),
             sendControlMsg request],
         currentChannelSenseRequest := (0, arrival)\<rparr>)"
    using answerCSR_result [of phy ?d2 rssiMap] assms a by simp
  then show "setChannelIdleStatus phy isIdle d =
      (Inr (),
       d\<lparr>isChannelIdle := isIdle,
         calls := calls d @
            [cancelScheduledMessage request,
             setResult request isIdle (intensityOver rssiMap {arrival..getSimTime phy}),
             sendControlMsg request],
         currentChannelSenseRequest := (0, arrival)\<rparr>)"
    using a by (simp add: setChannelIdleStatus_def Let_def)
next
  assume a: "fst (currentChannelSenseRequest d) = 0 \<and> arrival = getSimTime phy
     \<and> canAnswerCSR phy d (request, arrival)"
  let ?d1 = "d\<lparr>currentChannelSenseRequest := (request, getSimTime phy)\<rparr>"
  have can: "canAnswerCSR phy ?d1 (request, getSimTime phy)"
    using a canAnswerCSR_flag [of ?d1 d phy "(request, getSimTime phy)"] by auto
  have "answerCSR phy ?d1 =
      (Inr (),
       ?d1\<lparr>calls := calls ?d1 @
            [setResult request (isChannelIdle ?d1) (intensityOver rssiMap {arrival..getSimTime phy}),
             sendControlMsg request],
         currentChannelSenseRequest := (0, arrival)\<rparr>)"
    using answerCSR_result [of phy ?d1 rssiMap] assms a by simp
  then show "handleChannelSenseRequest phy request d =
      (Inr notAgain,
       d\<lparr>calls := calls d @
            [setResult request (isChannelIdle d) (intensityOver rssiMap {arrival..getSimTime phy}),
             sendControlMsg request],
         currentChannelSenseRequest := (0, arrival)\<rparr>)"
    using assms(1) a can
    by (simp add: handleChannelSenseRequest_def handleNewSenseRequest_def Let_def)
qed

theorem sense_answer_intensity_witness:
  "calculateRSSIMapping (examplePhy 2) 0 (getSimTime (examplePhy 2)) 0
     = Inr (MappingUtils_add examplePower (\<lambda>t. None) 0)
   \<and> canAnswerCSR (examplePhy 2)
        (exampleDecider 1\<lparr>currentChannelSenseRequest := (9, 0), isChannelIdle := False\<rparr>) (9, 0)
   \<and> setChannelIdleStatus (examplePhy 2) False (exampleDecider 1\<lparr>currentChannelSenseRequest := (9, 0)\<rparr>)
     = (Inr (),
        exampleDecider 1
          \<lparr>isChannelIdle := False,
           calls := [cancelScheduledMessage 9,
                     setResult 9 False (intensityOver (MappingUtils_add examplePower (\<lambda>t. None) 0) {0..2}),
                     sendControlMsg 9],
           currentChannelSenseRequest := (0, 0)\<rparr>)
   \<and> intensityOver (MappingUtils_add examplePower (\<lambda>t. None) 0) {0..2} = 3"
proof -
  have "intensityOver (MappingUtils_add examplePower (\<lambda>t. None) 0) {0..2} = 3"
    unfolding clamp_findMax [symmetric]
    by (simp add: MappingUtils_findMax_def MappingUtils_add_def examplePower_def upto.simps)
  then show ?thesis
    using sense_answer_intensity
      [where request = 9 and phy = "examplePhy 2" and arrival = 0 and isIdle = False
         and rssiMap = "MappingUtils_add examplePower (\<lambda>t. None) 0"
         and d = "exampleDecider 1\<lparr>currentChannelSenseRequest := (9, 0)\<rparr>"]
      example_rssi_window
    by (simp add: canAnswerCSR_def examplePhy_def exampleDecider_def)
qed

text \<open>
  Counterexample to claim C4 as stated, in the scenario: a request arrives at instant 0, the frame
  starts at instant 2 and is accepted, the channel turns busy and the request is answered
  with intensity 3, the frame's power at the border instant 2. Over the half-open interval
  from 0 to 2 the accumulated mapping holds no value, so the claim would give 0.
\<close>

theorem sense_answer_half_open_counterexample:
  "calls (snd (processSignal exampleVirtuals (examplePhy 2) 7
                 (snd (handleChannelSenseRequest (examplePhy 0) 9 (exampleDecider 1)))))
     = [cancelScheduledMessage 9, setResult 9 False 3, sendControlMsg 9]
   \<and> claimedIntensity (examplePhy 2) 0 = Some 0
   \<and> claimedIntensity (examplePhy 2) 0 \<noteq> Some 3"
proof -
  have "\<forall>t\<in>{0..<2::int}. MappingUtils_add examplePower (\<lambda>t. None) 0 t = None"
    by (simp add: MappingUtils_add_def examplePower_def)
  then have "intensityOver (MappingUtils_add examplePower (\<lambda>t. None) 0) {0..<2} = 0"
    by (simp add: intensityOver_def)
  then have "claimedIntensity (examplePhy 2) 0 = Some 0"
    using example_rssi_window by (simp add: claimedIntensity_def examplePhy_def)
  then show ?thesis
    by (simp add: example_request example_accept)
qed

text \<open>
  Claim C5. While a request is pending, \<open>handleChannelSenseRequest\<close> called with
  another request ends the run with \<open>opp_error\<close> and delivers nothing: the decider,
  its log included, is as before. Called with the pending request itself, it answers the
  request and returns \<open>notAgain\<close>; \<open>canAnswerCSR\<close> is not among the conditions.
\<close>

theorem handleChannelSenseRequest_while_outstanding:
  assumes "request \<noteq> 0"
    and "fst (currentChannelSenseRequest d) \<noteq> 0"
  shows "(fst (currentChannelSenseRequest d) \<noteq> request \<longrightarrow>
            handleChannelSenseRequest phy request d =
              (Inl (opp_error ''Got a new ChannelSenseRequest while already handling another one!''), d))
       \<and> (fst (currentChannelSenseRequest d) = request \<and> channelInfoValid phy \<longrightarrow>
            (\<exists>rssi. handleChannelSenseRequest phy request d =
               (Inr notAgain,
                d\<lparr>calls := calls d @ [setResult request (isChannelIdle d) rssi, sendControlMsg request],
                  currentChannelSenseRequest := (0, snd (currentChannelSenseRequest d))\<rparr>)))"
proof (intro conjI impI)
  assume "fst (currentChannelSenseRequest d) \<noteq> request"
  then show "handleChannelSenseRequest phy request d =
      (Inl (opp_error ''Got a new ChannelSenseRequest while already handling another one!''), d)"
    using assms by (simp add: handleChannelSenseRequest_def)
next
  assume a: "fst (currentChannelSenseRequest d) = request \<and> channelInfoValid phy"
  then obtain rssi where "answerCSR phy d =
      (Inr (),
       d\<lparr>calls := calls d @ [setResult request (isChannelIdle d) rssi, sendControlMsg request],
         currentChannelSenseRequest := (0, snd (currentChannelSenseRequest d))\<rparr>)"
    using answerCSR_valid [of phy d] assms(2) by auto
  then show "\<exists>rssi. handleChannelSenseRequest phy request d =
      (Inr notAgain,
       d\<lparr>calls := calls d @ [setResult request (isChannelIdle d) rssi, sendControlMsg request],
         currentChannelSenseRequest := (0, snd (currentChannelSenseRequest d))\<rparr>)"
    using assms a by (auto simp add: handleChannelSenseRequest_def handleSenseRequestTimeout_def)
qed

theorem handleChannelSenseRequest_while_outstanding_witness:
  "fst (currentChannelSenseRequest (exampleDecider 1\<lparr>currentChannelSenseRequest := (9, 0)\<rparr>)) = 9
   \<and> channelInfoValid (examplePhy 1)
   \<and> \<not> canAnswerCSR (examplePhy 1) (exampleDecider 1\<lparr>currentChannelSenseRequest := (9, 0)\<rparr>) (9, 0)
   \<and> handleChannelSenseRequest (examplePhy 1) 8 (exampleDecider 1\<lparr>currentChannelSenseRequest := (9, 0)\<rparr>)
       = (Inl (opp_error ''Got a new ChannelSenseRequest while already handling another one!''),
          exampleDecider 1\<lparr>currentChannelSenseRequest := (9, 0)\<rparr>)
   \<and> handleChannelSenseRequest (examplePhy 1) 9 (exampleDecider 1\<lparr>currentChannelSenseRequest := (9, 0)\<rparr>)
       = (Inr notAgain,
          exampleDecider 1\<lparr>currentChannelSenseRequest := (0, 0),
                            calls := [setResult 9 True 0, sendControlMsg 9]\<rparr>)"
  using handleChannelSenseRequest_while_outstanding
      [where request = 8 and phy = "examplePhy 1"
         and d = "exampleDecider 1\<lparr>currentChannelSenseRequest := (9, 0)\<rparr>"]
    handleChannelSenseRequest_while_outstanding
      [where request = 9 and phy = "examplePhy 1"
         and d = "exampleDecider 1\<lparr>currentChannelSenseRequest := (9, 0)\<rparr>"]
    examplePhy_valid [of 1] example_timeout [of 1]
  by (simp add: canAnswerCSR_def examplePhy_def exampleDecider_def SimTime_add_def)

text \<open>
  Claim C6. \<open>setChannelIdleStatus\<close> stores the flag and tests \<open>canAnswerCSR\<close> on the
  pending request with the new flag. When the test succeeds it cancels the request's
  scheduled message, then writes the result and delivers the request by
  \<open>sendControlMsg\<close>, and clears the pending record; when it fails it changes nothing
  but the flag. As a consequence, in every run of the host from an initial state, the
  requests delivered by \<open>sendControlMsg\<close>, followed by the request still pending if
  there is one, are exactly the requests the host submitted, in order: each request is
  answered once and no more. When no request is pending no wake-up is left scheduled.
\<close>

theorem sense_request_answered_once:
  assumes "channelInfoValid phy"
    and "initialHost h0"
    and "run v requests es h0 = Some h"
  shows "isChannelIdle (snd (setChannelIdleStatus phy isIdle d)) = isIdle
       \<and> (canAnswerCSR phy (d\<lparr>isChannelIdle := isIdle\<rparr>) (currentChannelSenseRequest d) \<longrightarrow>
            (\<exists>rssi. setChannelIdleStatus phy isIdle d =
               (Inr (),
                d\<lparr>isChannelIdle := isIdle,
                  calls := calls d @
                    [cancelScheduledMessage (fst (currentChannelSenseRequest d)),
                     setResult (fst (currentChannelSenseRequest d)) isIdle rssi,
                     sendControlMsg (fst (currentChannelSenseRequest d))],
                  currentChannelSenseRequest := (0, snd (currentChannelSenseRequest d))\<rparr>)))
       \<and> (\<not> canAnswerCSR phy (d\<lparr>isChannelIdle := isIdle\<rparr>) (currentChannelSenseRequest d) \<longrightarrow>
            setChannelIdleStatus phy isIdle d = (Inr (), d\<lparr>isChannelIdle := isIdle\<rparr>))
       \<and> answers (calls (decider h)) @ pendingRequests (decider h) = newRequests es
       \<and> (fst (currentChannelSenseRequest (decider h)) = 0 \<longrightarrow> scheduled h = None)"
proof -
  have J: "hostInvariant requests h0"
    using assms(2) by (rule initialHost_invariant)
  from run_effect [OF J assms(3)]
  have "hostInvariant requests h"
    and "answers (calls (decider h)) @ pendingRequests (decider h)
           = answers (calls (decider h0)) @ pendingRequests (decider h0) @ newRequests es"
    by blast+
  then have glob: "answers (calls (decider h)) @ pendingRequests (decider h) = newRequests es"
    and sch: "fst (currentChannelSenseRequest (decider h)) = 0 \<longrightarrow> scheduled h = None"
    using assms(2) by (simp_all add: initialHost_def pendingRequests_def hostInvariant_def)
  have flag: "isChannelIdle (snd (setChannelIdleStatus phy isIdle d)) = isIdle"
    using setChannelIdleStatus_frame [OF assms(1), of isIdle d] by auto
  show ?thesis
    using glob sch flag setChannelIdleStatus_answer [OF assms(1), where d = d and isIdle = isIdle]
      setChannelIdleStatus_idle [where phy = phy and d = d and isIdle = isIdle]
    by blast
qed

theorem sense_request_answered_once_witness:
  "channelInfoValid (examplePhy 2)
   \<and> initialHost (exampleHost 1)
   \<and> run exampleVirtuals (getRequest (examplePhy 0))
        [newRequest (examplePhy 0) 9, advance 2, frameEvent (examplePhy 0) 7, advance 12,
         frameEvent (examplePhy 0) 7]
        (exampleHost 1)
     = Some \<lparr>decider =
               \<lparr>sensitivity = 1, currentSignal = (0, EXPECT_END), isChannelIdle = True,
                currentChannelSenseRequest = (0, 0),
                calls = [cancelScheduledMessage 9, setResult 9 False 3, sendControlMsg 9,
                         sendUp 7 True]\<rparr>,
             clock = 12, scheduled = None\<rparr>
   \<and> answers [cancelScheduledMessage 9, setResult 9 False 3, sendControlMsg 9, sendUp 7 True]
       = newRequests [newRequest (examplePhy 0) 9, advance 2, frameEvent (examplePhy 0) 7,
                      advance 12, frameEvent (examplePhy 0) 7]
   \<and> canAnswerCSR (examplePhy 2)
        (exampleDecider 1\<lparr>currentChannelSenseRequest := (9, 0), isChannelIdle := False\<rparr>) (9, 0)
   \<and> (\<exists>rssi. setChannelIdleStatus (examplePhy 2) False
                 (exampleDecider 1\<lparr>currentChannelSenseRequest := (9, 0)\<rparr>)
        = (Inr (),
           exampleDecider 1
             \<lparr>isChannelIdle := False,
              calls := [cancelScheduledMessage 9, setResult 9 False rssi, sendControlMsg 9],
              currentChannelSenseRequest := (0, 0)\<rparr>))
   \<and> \<not> canAnswerCSR (examplePhy 2)
        (exampleDecider 1\<lparr>currentChannelSenseRequest := (9, 0), isChannelIdle := True\<rparr>) (9, 0)
   \<and> setChannelIdleStatus (examplePhy 2) True
        (exampleDecider 1\<lparr>currentChannelSenseRequest := (9, 0)\<rparr>)
       = (Inr (), exampleDecider 1\<lparr>currentChannelSenseRequest := (9, 0), isChannelIdle := True\<rparr>)"
proof -
  have init: "initialHost (exampleHost 1)"
    by (simp add: initialHost_def exampleHost_def exampleDecider_def)
  note once = sense_request_answered_once [OF examplePhy_valid [of 2] init example_run_answered_early]
  show ?thesis
    using once [where isIdle = False and d = "exampleDecider 1\<lparr>currentChannelSenseRequest := (9, 0)\<rparr>"]
      once [where isIdle = True and d = "exampleDecider 1\<lparr>currentChannelSenseRequest := (9, 0)\<rparr>"]
      examplePhy_valid [of 2] init example_run_answered_early
    by (simp add: canAnswerCSR_def examplePhy_def exampleDecider_def SimTime_add_def
        pendingRequests_def)
qed

text \<open>
  Claim C7. In a run of the host from an initial state, take a state with a pending
  request in which \<open>canAnswerCSR\<close> holds, and any later state of the run before the
  request is answered (the requests delivered by \<open>sendControlMsg\<close> are the same).
  Then time has not gone back, the same request is pending, and \<open>canAnswerCSR\<close> holds
  there too. The reason is that a pending request's mode is never fulfilled, so
  \<open>canAnswerCSR\<close> holds for it exactly at its wake-up time, which the clock does not
  pass while the request is pending.
\<close>

theorem canAnswerCSR_stays_true_until_answered:
  assumes "initialHost h0"
    and "run v requests es1 h0 = Some h1"
    and "run v requests es2 h1 = Some h2"
    and "fst (currentChannelSenseRequest (decider h1)) \<noteq> 0"
    and "answers (calls (decider h2)) = answers (calls (decider h1))"
    and "canAnswerCSR (phyAt requests h1 phy1) (decider h1) (currentChannelSenseRequest (decider h1))"
  shows "clock h1 \<le> clock h2
       \<and> currentChannelSenseRequest (decider h2) = currentChannelSenseRequest (decider h1)
       \<and> canAnswerCSR (phyAt requests h2 phy2) (decider h2) (currentChannelSenseRequest (decider h2))"
proof -
  have J1: "hostInvariant requests h1"
    using run_effect [OF initialHost_invariant [OF assms(1)] assms(2)] by blast
  from run_effect [OF J1 assms(3)] assms(4,5)
  have J2: "hostInvariant requests h2" and mono: "clock h1 \<le> clock h2"
    and same: "currentChannelSenseRequest (decider h2) = currentChannelSenseRequest (decider h1)"
    by auto
  have w1: "clock h1 = wakeTime requests (decider h1)"
    using canAnswerCSR_phyAt [OF assms(4), of requests h1 phy1] assms(4,6) J1
    by (simp add: hostInvariant_def)
  have wake: "wakeTime requests (decider h2) = wakeTime requests (decider h1)"
    using same by (simp add: wakeTime_def)
  have "0 \<le> clock h1"
    using J1 by (simp add: hostInvariant_def)
  then have "clock h2 \<le> wakeTime requests (decider h2)"
    using J2 same assms(4) w1 wake by (auto simp add: hostInvariant_def notAgain_def)
  then have "clock h2 = wakeTime requests (decider h2)"
    using mono w1 wake by simp
  then show ?thesis
    using canAnswerCSR_phyAt [of "decider h2" requests h2 phy2] same assms(4) mono by simp
qed

theorem canAnswerCSR_stays_true_until_answered_witness:
  "initialHost (exampleHost 5)
   \<and> run exampleVirtuals (getRequest (examplePhy 0))
        [newRequest (examplePhy 0) 9, advance 5] (exampleHost 5)
     = Some \<lparr>decider = exampleDecider 5\<lparr>currentChannelSenseRequest := (9, 0)\<rparr>,
             clock = 5, scheduled = Some (9, 5)\<rparr>
   \<and> run exampleVirtuals (getRequest (examplePhy 0)) [frameEvent (examplePhy 0) 7]
        \<lparr>decider = exampleDecider 5\<lparr>currentChannelSenseRequest := (9, 0)\<rparr>,
         clock = 5, scheduled = Some (9, 5)\<rparr>
     = Some \<lparr>decider = exampleDecider 5\<lparr>currentChannelSenseRequest := (9, 0)\<rparr>,
             clock = 5, scheduled = Some (9, 5)\<rparr>
   \<and> canAnswerCSR (examplePhy 5) (exampleDecider 5\<lparr>currentChannelSenseRequest := (9, 0)\<rparr>) (9, 0)"
proof -
  have init: "initialHost (exampleHost 5)"
    by (simp add: initialHost_def exampleHost_def exampleDecider_def)
  have can: "canAnswerCSR
      (phyAt (getRequest (examplePhy 0))
         \<lparr>decider = exampleDecider 5\<lparr>currentChannelSenseRequest := (9, 0)\<rparr>,
          clock = 5, scheduled = Some (9, 5)\<rparr> (examplePhy 0))
      (exampleDecider 5\<lparr>currentChannelSenseRequest := (9, 0)\<rparr>) (9, 0)"
    by (simp add: canAnswerCSR_def phyAt_def examplePhy_def exampleDecider_def SimTime_add_def)
  have eq: "phyAt (getRequest (examplePhy 0))
         \<lparr>decider = exampleDecider 5\<lparr>currentChannelSenseRequest := (9, 0)\<rparr>,
          clock = 5, scheduled = Some (9, 5)\<rparr> (examplePhy 0) = examplePhy 5"
    by (simp add: phyAt_def examplePhy_def)
  from canAnswerCSR_stays_true_until_answered
    [OF init example_run_pending example_run_weak_frame, where ?phy1.0 = "examplePhy 0"
       and ?phy2.0 = "examplePhy 0"]
    can
  show ?thesis
    using init example_run_pending example_run_weak_frame eq by simp
qed

subsection \<open>The maximum over an empty window\<close>

text \<open>
  Claim C8, at the input where the code departs from it. At instant 0 of the scenario no
  frame overlaps the window and there is no thermal noise. \<open>calcChannelSenseRSSI\<close>
  returns \<open>- DBL_MAX\<close>, and \<open>getChannelState\<close> passes this negative value on to its
  caller; the answer to a sense request over the same window carries 0, since
  \<open>answerCSR\<close> replaces a negative value by zero.
\<close>

theorem getChannelState_reports_sentinel:
  "getChannelInfo (examplePhy 0) 0 0 = []
   \<and> getThermalNoise (examplePhy 0) 0 0 = None
   \<and> calcChannelSenseRSSI (examplePhy 0) 0 0 = Inr (- DBL_MAX)
   \<and> getChannelState (examplePhy 0) d = Inr (isChannelIdle d, - DBL_MAX)
   \<and> - DBL_MAX < 0
   \<and> calls (snd (handleChannelSenseRequest (examplePhy 0) 9 (exampleDecider 1\<lparr>isChannelIdle := False\<rparr>)))
       = [setResult 9 False 0, sendControlMsg 9]"
proof -
  have e: "calcChannelSenseRSSI (examplePhy 0) 0 0 = Inr (- DBL_MAX)"
    by (rule calcChannelSenseRSSI_empty) (simp_all add: examplePhy_def)
  have "getChannelState (examplePhy 0) d = Inr (isChannelIdle d, - DBL_MAX)"
    using e by (simp add: getChannelState_def Let_def examplePhy_def)
  moreover have "calls (snd (handleChannelSenseRequest (examplePhy 0) 9 (exampleDecider 1\<lparr>isChannelIdle := False\<rparr>)))
       = [setResult 9 False 0, sendControlMsg 9]"
    using DBL_MAX_positive
    by (simp add: example_defs decider_defs Let_def)
  ultimately show ?thesis
    using e DBL_MAX_positive by (simp add: examplePhy_def)
qed

subsection \<open>The state of the recorded reception\<close>

text \<open>
  Claim C10. If a recorded reception is in state \<open>EXPECT_END\<close> before
  \<open>processSignal\<close>, \<open>handleChannelSenseRequest\<close> or \<open>setChannelIdleStatus\<close>, it is
  so afterwards (\<open>getChannelState\<close> changes nothing). Under this invariant
  \<open>getSignalState\<close> gives \<open>NEW\<close> or \<open>EXPECT_END\<close> for every frame
  \<open>processSignal\<close> lets through, and the result of \<open>processSignal\<close> does not depend
  on \<open>processSignalHeader\<close> and \<open>processUnknownSignal\<close>: neither is reached.
\<close>

theorem receptionInvariant_preserved:
  assumes "receptionInvariant d"
  shows "receptionInvariant (snd (processSignal v phy frame d))
       \<and> receptionInvariant (snd (handleChannelSenseRequest phy request d))
       \<and> receptionInvariant (snd (setChannelIdleStatus phy isIdle d))
       \<and> (frame \<noteq> 0 \<longrightarrow> getSignalState frame d = NEW \<or> getSignalState frame d = EXPECT_END)
       \<and> processSignal v phy frame d = processSignal v' phy frame d"
proof -
  have st: "getSignalState frame d = NEW \<or> getSignalState frame d = EXPECT_END" if "frame \<noteq> 0"
    using that assms by (auto simp add: getSignalState_def receptionInvariant_def)
  have same: "processSignal v phy frame d = processSignal v' phy frame d" for v v'
    using st by (auto simp add: processSignal_def Let_def SignalState_distinct)
  have "receptionInvariant (snd (processSignal v phy frame d))"
    using st assms processNewSignal_invariant [OF assms, of phy frame]
      processSignalEnd_invariant [of phy frame d]
    by (auto simp add: processSignal_def Let_def SignalState_distinct)
  moreover have "receptionInvariant (snd (handleChannelSenseRequest phy request d))"
    using assms by (simp add: receptionInvariant_def handleChannelSenseRequest_currentSignal)
  moreover have "receptionInvariant (snd (setChannelIdleStatus phy isIdle d))"
    using assms by (simp add: receptionInvariant_def setChannelIdleStatus_currentSignal)
  ultimately show ?thesis using st same by blast
qed

theorem receptionInvariant_preserved_witness:
  "receptionInvariant (exampleDecider 1\<lparr>currentSignal := (7, EXPECT_END)\<rparr>)
   \<and> receptionInvariant
        (snd (processSignal exampleVirtuals (examplePhy 12) 7
                (exampleDecider 1\<lparr>currentSignal := (7, EXPECT_END)\<rparr>)))
   \<and> getSignalState 7 (exampleDecider 1\<lparr>currentSignal := (7, EXPECT_END)\<rparr>) = EXPECT_END
   \<and> getSignalState 8 (exampleDecider 1\<lparr>currentSignal := (7, EXPECT_END)\<rparr>) = NEW"
  using receptionInvariant_preserved
      [where d = "exampleDecider 1\<lparr>currentSignal := (7, EXPECT_END)\<rparr>"
         and v = exampleVirtuals and phy = "examplePhy 12" and frame = 7]
  by (simp add: receptionInvariant_def getSignalState_def exampleDecider_def)

end
